theory Spec2Isabelle
  imports Main "HOL-Library.Word" "HOL-Library.Sublist" "HOL-Library.Monad_Syntax"
begin

section \<open>Text and bytes\<close>

text \<open>
  The module runs on Python 3 (it names \<^verbatim>\<open>ConnectionError\<close> and returns values from
  generators), so \<^verbatim>\<open>IS_PY3\<close> is true throughout and only the Python 3 branches are
  embedded.  A Python \<^verbatim>\<open>str\<close> is a sequence of code points, a \<^verbatim>\<open>bytes\<close> object a
  sequence of octets.
\<close>

type_synonym str = "nat list"
type_synonym byte = "8 word"
type_synonym bytes = "byte list"

text \<open>String and bytes literals of the source, written with their ASCII characters.\<close>

definition ustr :: "string \<Rightarrow> str" where
  "ustr s = map of_char s"

definition bstr :: "string \<Rightarrow> bytes" where
  "bstr s = map of_char s"

text \<open>The values a Python \<^verbatim>\<open>str\<close> can hold: code points up to U+10FFFF.\<close>

definition valid_str :: "str \<Rightarrow> bool" where
  "valid_str s = list_all (\<lambda>c. c < 0x110000) s"

definition is_surrogate :: "nat \<Rightarrow> bool" where
  "is_surrogate c = (0xD800 \<le> c \<and> c \<le> 0xDFFF)"

subsection \<open>The UTF-8 codec\<close>

definition hex_digit :: "nat \<Rightarrow> nat" where
  "hex_digit d = (if d < 10 then 48 + d else 87 + d)"

text \<open>
  The \<^verbatim>\<open>backslashreplace\<close> error handler of \<^verbatim>\<open>str.encode\<close>.  UTF-8 rejects only the
  surrogate code points, which lie below U+10000 and are written \<^verbatim>\<open>\uXXXX\<close>.
\<close>

definition backslashreplace :: "nat \<Rightarrow> nat list" where
  "backslashreplace c =
     [92, 117, hex_digit (c div 4096 mod 16), hex_digit (c div 256 mod 16),
      hex_digit (c div 16 mod 16), hex_digit (c mod 16)]"

definition utf8_encode_cp :: "nat \<Rightarrow> nat list" where
  "utf8_encode_cp c =
     (if c < 0x80 then [c]
      else if c < 0x800 then [0xC0 + c div 64, 0x80 + c mod 64]
      else if c < 0x10000 then [0xE0 + c div 4096, 0x80 + c div 64 mod 64, 0x80 + c mod 64]
      else [0xF0 + c div 262144, 0x80 + c div 4096 mod 64, 0x80 + c div 64 mod 64,
            0x80 + c mod 64])"

definition encode_cp :: "nat \<Rightarrow> nat list" where
  "encode_cp c = (if is_surrogate c then backslashreplace c else utf8_encode_cp c)"

text \<open>\<^verbatim>\<open>value.encode('utf-8', 'backslashreplace')\<close>\<close>

definition encode_utf8 :: "str \<Rightarrow> bytes" where
  "encode_utf8 s = map of_nat (concat (map encode_cp s))"

definition is_cont :: "nat \<Rightarrow> bool" where
  "is_cont b = (0x80 \<le> b \<and> b < 0xC0)"

text \<open>
  The UTF-8 decoder of CPython over octet values: \<open>Some c\<close> for a decoded code point,
  \<open>None\<close> for each error it reports (an invalid start octet, an invalid continuation
  after one, two or three accepted octets, or a sequence cut off by the end of the data).
\<close>

fun utf8_decode :: "nat list \<Rightarrow> nat option list" where
  "utf8_decode [] = []"
| "utf8_decode (b0 # bs) =
     (if b0 < 0x80 then Some b0 # utf8_decode bs
      else if b0 < 0xC2 then None # utf8_decode bs
      else if b0 < 0xE0 then
        (case bs of
           [] \<Rightarrow> [None]
         | b1 # r1 \<Rightarrow>
             if is_cont b1 then Some ((b0 - 0xC0) * 64 + (b1 - 0x80)) # utf8_decode r1
             else None # utf8_decode bs)
      else if b0 < 0xF0 then
        (case bs of
           [] \<Rightarrow> [None]
         | b1 # r1 \<Rightarrow>
             if \<not> is_cont b1 \<or> (b0 = 0xE0 \<and> b1 < 0xA0) \<or> (b0 = 0xED \<and> 0xA0 \<le> b1)
             then None # utf8_decode bs
             else
               (case r1 of
                  [] \<Rightarrow> [None]
                | b2 # r2 \<Rightarrow>
                    if is_cont b2
                    then Some ((b0 - 0xE0) * 4096 + (b1 - 0x80) * 64 + (b2 - 0x80))
                           # utf8_decode r2
                    else None # utf8_decode r1))
      else if b0 < 0xF5 then
        (case bs of
           [] \<Rightarrow> [None]
         | b1 # r1 \<Rightarrow>
             if \<not> is_cont b1 \<or> (b0 = 0xF0 \<and> b1 < 0x90) \<or> (b0 = 0xF4 \<and> 0x90 \<le> b1)
             then None # utf8_decode bs
             else
               (case r1 of
                  [] \<Rightarrow> [None]
                | b2 # r2 \<Rightarrow>
                    if \<not> is_cont b2 then None # utf8_decode r1
                    else
                      (case r2 of
                         [] \<Rightarrow> [None]
                       | b3 # r3 \<Rightarrow>
                           if is_cont b3
                           then Some ((b0 - 0xF0) * 262144 + (b1 - 0x80) * 4096
                                      + (b2 - 0x80) * 64 + (b3 - 0x80)) # utf8_decode r3
                           else None # utf8_decode r2)))
      else None # utf8_decode bs)"

text \<open>\<^verbatim>\<open>value.decode('utf-8', errors='replace')\<close>: every error becomes U+FFFD.\<close>

definition decode_utf8_replace :: "bytes \<Rightarrow> str" where
  "decode_utf8_replace bs =
     map (\<lambda>d. case d of None \<Rightarrow> 0xFFFD | Some c \<Rightarrow> c) (utf8_decode (map unat bs))"

text \<open>\<^verbatim>\<open>value.decode()\<close>: strict, the first error raises \<^verbatim>\<open>UnicodeDecodeError\<close>.\<close>

definition decode_utf8_strict :: "bytes \<Rightarrow> str option" where
  "decode_utf8_strict bs =
     (let ds = utf8_decode (map unat bs)
      in if list_all (\<lambda>d. d \<noteq> None) ds then Some (map the ds) else None)"

subsection \<open>String methods\<close>

text \<open>
  \<^verbatim>\<open>s.replace(old, new)\<close> of \<^verbatim>\<open>str\<close> and of \<^verbatim>\<open>bytes\<close>: the occurrences of \<open>old\<close>,
  found from the left and not overlapping, become \<open>new\<close>.
\<close>

function replace :: "'a list \<Rightarrow> 'a list \<Rightarrow> 'a list \<Rightarrow> 'a list" where
  "replace old new s =
     (if old = [] then new @ concat (map (\<lambda>c. c # new) s)
      else if s = [] then []
      else if prefix old s then new @ replace old new (drop (length old) s)
      else hd s # replace old new (tl s))"
  by pat_completeness auto
termination
  by (relation "measure (\<lambda>(old, new, s). length s)") auto

declare replace.simps [simp del]

text \<open>
  \<^verbatim>\<open>str.isspace\<close> for one code point, which \<^verbatim>\<open>str.strip()\<close> and the pattern \<^verbatim>\<open>\s\<close> use.
\<close>

definition isspace :: "nat \<Rightarrow> bool" where
  "isspace c =
     ((0x09 \<le> c \<and> c \<le> 0x0D) \<or> (0x1C \<le> c \<and> c \<le> 0x20) \<or> c = 0x85 \<or> c = 0xA0
      \<or> c = 0x1680 \<or> (0x2000 \<le> c \<and> c \<le> 0x200A) \<or> c = 0x2028 \<or> c = 0x2029
      \<or> c = 0x202F \<or> c = 0x205F \<or> c = 0x3000)"

definition strip :: "str \<Rightarrow> str" where
  "strip s = rev (dropWhile isspace (rev (dropWhile isspace s)))"

text \<open>
  \<^verbatim>\<open>s.lower()\<close> and \<^verbatim>\<open>s.upper()\<close> on the ASCII letters; the texts the module applies them
  to (the \<^verbatim>\<open>server\<close> header, the HTTP method) are ASCII.
\<close>

definition lower :: "str \<Rightarrow> str" where
  "lower s = map (\<lambda>c. if 65 \<le> c \<and> c \<le> 90 then c + 32 else c) s"

definition upper :: "str \<Rightarrow> str" where
  "upper s = map (\<lambda>c. if 97 \<le> c \<and> c \<le> 122 then c - 32 else c) s"

text \<open>\<^verbatim>\<open>sub in s\<close>\<close>

definition contains :: "str \<Rightarrow> str \<Rightarrow> bool" where
  "contains sub s = sublist sub s"

text \<open>\<^verbatim>\<open>sep.join(parts)\<close>\<close>

fun join :: "str \<Rightarrow> str list \<Rightarrow> str" where
  "join sep [] = []"
| "join sep [p] = p"
| "join sep (p # ps) = p @ sep @ join sep ps"

text \<open>\<^verbatim>\<open>str(n)\<close> for an integer: its decimal digits, with a minus sign when negative.\<close>

fun str_nat :: "nat \<Rightarrow> str" where
  "str_nat n = (if n < 10 then [48 + n] else str_nat (n div 10) @ [48 + n mod 10])"

declare str_nat.simps [simp del]

definition str_int :: "int \<Rightarrow> str" where
  "str_int i = (if i < 0 then 45 # str_nat (nat (- i)) else str_nat (nat i))"

section \<open>Forcing text and bytes\<close>

text \<open>\<^verbatim>\<open>force_bytes\<close> on a \<^verbatim>\<open>str\<close> (a \<^verbatim>\<open>bytes\<close> value is returned as it is).\<close>

definition force_bytes :: "str \<Rightarrow> bytes" where
  "force_bytes v = encode_utf8 v"

section \<open>The sanitizer\<close>

definition REPLACEMENTS :: "(bytes \<times> bytes) list" where
  "REPLACEMENTS =
     [([0x00], []), ([0x01], []), ([0x02], []), ([0x03], []), ([0x04], []), ([0x05], []),
      ([0x06], []), ([0x07], []), ([0x08], []), ([0x0b], []), ([0x0c], []), ([0x0e], []),
      ([0x0f], []), ([0x10], []), ([0x11], []), ([0x12], []), ([0x13], []), ([0x14], []),
      ([0x15], []), ([0x16], []), ([0x17], []), ([0x18], []), ([0x19], []), ([0x1a], []),
      ([0x1b], []), ([0x1c], []), ([0x1d], []), ([0x1e], []), ([0x1f], [])]"

text \<open>
  \<^verbatim>\<open>sanitize\<close>: the loop over \<^verbatim>\<open>REPLACEMENTS\<close> is a left fold over the table; the result
  is bytes, which \<^verbatim>\<open>force_unicode\<close> decodes with \<^verbatim>\<open>errors='replace'\<close>.
\<close>

definition sanitize :: "str \<Rightarrow> str" where
  "sanitize data =
     (let fixed_string = force_bytes data;
          fixed_string = foldl (\<lambda>fixed (bad, good). replace bad good fixed) fixed_string REPLACEMENTS
      in decode_utf8_replace fixed_string)"

text \<open>The control characters the table removes.\<close>

definition removed_ctrl :: "nat \<Rightarrow> bool" where
  "removed_ctrl c = (c \<le> 0x08 \<or> c = 0x0B \<or> c = 0x0C \<or> (0x0E \<le> c \<and> c \<le> 0x1F))"

text \<open>
  What \<^verbatim>\<open>force_bytes\<close> followed by decoding makes of one code point: a surrogate comes
  back as the six characters of its escape, every other code point as itself.
\<close>

definition escape_cp :: "nat \<Rightarrow> str" where
  "escape_cp c = (if is_surrogate c then backslashreplace c else [c])"

section \<open>Values and exceptions\<close>

text \<open>
  \<^verbatim>\<open>datetime.datetime\<close> and \<^verbatim>\<open>datetime.date\<close>.  A date-time is naive when it has no
  UTC offset, aware otherwise; the offset is kept in whole seconds.
\<close>

record datetime =
  year :: nat
  month :: nat
  day :: nat
  hour :: nat
  minute :: nat
  second :: nat
  microsecond :: nat
  utcoffset :: "int option"

record date =
  date_year :: nat
  date_month :: nat
  date_day :: nat

definition is_leap :: "nat \<Rightarrow> bool" where
  "is_leap y = (y mod 4 = 0 \<and> (y mod 100 \<noteq> 0 \<or> y mod 400 = 0))"

definition days_in_month :: "nat \<Rightarrow> nat \<Rightarrow> nat" where
  "days_in_month y m =
     (if m = 2 then (if is_leap y then 29 else 28)
      else if m = 4 \<or> m = 6 \<or> m = 9 \<or> m = 11 then 30 else 31)"

text \<open>The field ranges the constructors of \<^verbatim>\<open>datetime\<close> enforce.\<close>

definition valid_ymd :: "nat \<Rightarrow> nat \<Rightarrow> nat \<Rightarrow> bool" where
  "valid_ymd y m d =
     (1 \<le> y \<and> y \<le> 9999 \<and> 1 \<le> m \<and> m \<le> 12 \<and> 1 \<le> d \<and> d \<le> days_in_month y m)"

definition valid_hms :: "nat \<Rightarrow> nat \<Rightarrow> nat \<Rightarrow> bool" where
  "valid_hms h mi s = (h < 24 \<and> mi < 60 \<and> s < 60)"

definition valid_datetime :: "datetime \<Rightarrow> bool" where
  "valid_datetime dt =
     (valid_ymd (year dt) (month dt) (day dt) \<and> valid_hms (hour dt) (minute dt) (second dt)
      \<and> microsecond dt < 1000000
      \<and> (case utcoffset dt of None \<Rightarrow> True | Some off \<Rightarrow> - 86400 < off \<and> off < 86400))"

definition valid_date :: "date \<Rightarrow> bool" where
  "valid_date d = valid_ymd (date_year d) (date_month d) (date_day d)"

text \<open>
  A float.  A finite float is given by the text \<^verbatim>\<open>repr\<close> writes for it: the shortest
  decimal text that reads back as that float, so the text determines the float, and it is
  what \<^verbatim>\<open>str\<close> and \<^verbatim>\<open>format\<close> produce for it.  The other floats are the two
  infinities and not-a-number.
\<close>

datatype pyfloat = Finite str | PosInf | NegInf | NaN

text \<open>\<^verbatim>\<open>str(x)\<close> for a float.\<close>

fun float_text :: "pyfloat \<Rightarrow> str" where
  "float_text (Finite s) = s"
| "float_text PosInf = ustr ''inf''"
| "float_text NegInf = ustr ''-inf''"
| "float_text NaN = ustr ''nan''"

text \<open>The native values the module handles as single field values.\<close>

datatype pyval =
    PNone
  | PBool bool
  | PInt int
  | PFloat pyfloat
  | PStr str
  | PBytes bytes
  | PDateTime datetime
  | PDate date

text \<open>A field's value, or the value \<^verbatim>\<open>_to_python\<close> receives: one value, or a list or tuple.\<close>

datatype field_value = Single pyval | Multi "pyval list"

text \<open>What tornado hands back for a request.\<close>

record response =
  resp_code :: int
  resp_reason :: str
  resp_headers :: "(str \<times> str) list"
  resp_body :: bytes

datatype exn =
    SolrError str
  | ValueError str
  | NotImplementedError str
  | AttributeError
  | IndexError
  | KeyError
  | TypeError
  | UnicodeDecodeError
  | UnicodeEncodeError
  | SyntaxError
  | ParseError
  | ExpatError
  | Gaierror
  | ConnectionError
  | HTTPError int "response option"
  | OtherError str

text \<open>The classes an \<^verbatim>\<open>except\<close> clause catches, subclasses included.\<close>

definition is_UnicodeError :: "exn \<Rightarrow> bool" where
  "is_UnicodeError e = (e = UnicodeDecodeError \<or> e = UnicodeEncodeError)"

definition is_ValueError :: "exn \<Rightarrow> bool" where
  "is_ValueError e = ((case e of ValueError m \<Rightarrow> True | _ \<Rightarrow> False) \<or> is_UnicodeError e)"

definition is_SyntaxError :: "exn \<Rightarrow> bool" where
  "is_SyntaxError e = (e = SyntaxError \<or> e = ParseError)"

section \<open>Formatting\<close>

text \<open>\<^verbatim>\<open>'%0wd' % n\<close>: the decimal digits of \<open>n\<close>, filled with zeros up to the width.\<close>

definition pad :: "nat \<Rightarrow> nat \<Rightarrow> str" where
  "pad w n = replicate (w - length (str_nat n)) 48 @ str_nat n"

text \<open>The UTC offset as \<^verbatim>\<open>isoformat\<close> writes it: \<^verbatim>\<open>+HH:MM\<close>, with \<^verbatim>\<open>:SS\<close> when there are seconds.\<close>

definition format_offset :: "int \<Rightarrow> str" where
  "format_offset off =
     (let a = nat (abs off); hh = a div 3600; mm = a mod 3600 div 60; ss = a mod 60
      in (if off < 0 then ustr ''-'' else ustr ''+'') @ pad 2 hh @ ustr '':'' @ pad 2 mm
         @ (if ss \<noteq> 0 then ustr '':'' @ pad 2 ss else []))"

text \<open>\<^verbatim>\<open>date.isoformat()\<close> and \<^verbatim>\<open>datetime.isoformat(sep)\<close>\<close>

definition date_isoformat :: "date \<Rightarrow> str" where
  "date_isoformat d =
     pad 4 (date_year d) @ ustr ''-'' @ pad 2 (date_month d) @ ustr ''-'' @ pad 2 (date_day d)"

definition isoformat :: "nat \<Rightarrow> datetime \<Rightarrow> str" where
  "isoformat sep dt =
     pad 4 (year dt) @ ustr ''-'' @ pad 2 (month dt) @ ustr ''-'' @ pad 2 (day dt) @ [sep]
     @ pad 2 (hour dt) @ ustr '':'' @ pad 2 (minute dt) @ ustr '':'' @ pad 2 (second dt)
     @ (if microsecond dt \<noteq> 0 then ustr ''.'' @ pad 6 (microsecond dt) else [])
     @ (case utcoffset dt of None \<Rightarrow> [] | Some off \<Rightarrow> format_offset off)"

text \<open>
  \<^verbatim>\<open>force_unicode\<close>: bytes are decoded with \<^verbatim>\<open>errors='replace'\<close>, a \<^verbatim>\<open>str\<close> is kept, and
  every other value goes through \<^verbatim>\<open>str(value)\<close>.
\<close>

fun force_unicode :: "pyval \<Rightarrow> str" where
  "force_unicode (PBytes b) = decode_utf8_replace b"
| "force_unicode (PStr s) = s"
| "force_unicode PNone = ustr ''None''"
| "force_unicode (PBool b) = (if b then ustr ''True'' else ustr ''False'')"
| "force_unicode (PInt n) = str_int n"
| "force_unicode (PFloat x) = float_text x"
| "force_unicode (PDateTime dt) = isoformat 32 dt"
| "force_unicode (PDate d) = date_isoformat d"

section \<open>The value codec\<close>

definition is_valid_xml_char_ordinal :: "nat \<Rightarrow> bool" where
  "is_valid_xml_char_ordinal i =
     ((0x20 \<le> i \<and> i \<le> 0xD7FF)
      \<or> i \<in> {0x9, 0xA, 0xD}
      \<or> (0xE000 \<le> i \<and> i \<le> 0xFFFD)
      \<or> (0x10000 \<le> i \<and> i \<le> 0x10FFFF))"

definition clean_xml_string :: "str \<Rightarrow> str" where
  "clean_xml_string s = filter is_valid_xml_char_ordinal s"

text \<open>
  \<^verbatim>\<open>_from_python\<close>.  A value with \<^verbatim>\<open>strftime\<close> is a date-time (it has \<^verbatim>\<open>hour\<close>) or a
  date; bytes are decoded with \<^verbatim>\<open>errors='replace'\<close>; what is left is formatted with
  \<^verbatim>\<open>"{0}".format(value)\<close>.
\<close>

fun from_python :: "pyval \<Rightarrow> str" where
  "from_python (PDateTime dt) = clean_xml_string (isoformat 84 dt @ ustr ''Z'')"
| "from_python (PDate d) = clean_xml_string (date_isoformat d @ ustr ''T00:00:00Z'')"
| "from_python (PBool b) = clean_xml_string (if b then ustr ''true'' else ustr ''false'')"
| "from_python (PBytes b) = clean_xml_string (decode_utf8_replace b)"
| "from_python (PStr s) = clean_xml_string s"
| "from_python (PInt n) = clean_xml_string (str_int n)"
| "from_python (PFloat x) = clean_xml_string (float_text x)"
| "from_python PNone = clean_xml_string (ustr ''None'')"

subsection \<open>The date-time pattern\<close>

text \<open>
  \<^verbatim>\<open>DATETIME_REGEX.search\<close>, written out as the matcher of the pattern
  \<^verbatim>\<open>^(\d{4})-(\d{2})-(\d{2})T(\d{2}):(\d{2}):(\d{2})(\.\d+)?Z$\<close>.  It returns the six
  named groups.  The pattern is anchored at the start; \<^verbatim>\<open>$\<close> accepts the end of the text
  and the position before a final newline.  On a \<^verbatim>\<open>str\<close> the class \<^verbatim>\<open>\d\<close> is every
  Unicode decimal digit.
\<close>

text \<open>The ASCII digits \<^verbatim>\<open>0\<close> to \<^verbatim>\<open>9\<close>.\<close>

definition is_digit :: "nat \<Rightarrow> bool" where
  "is_digit c = (48 \<le> c \<and> c \<le> 57)"

text \<open>
  The decimal digits of Unicode 14 (category Nd), as runs of code points: each run starts
  at a digit zero and counts up through the ten digits, once or several times over.
\<close>

definition decimal_ranges :: "(nat \<times> nat) list" where
  "decimal_ranges =
     [(0x30, 0x39), (0x660, 0x669), (0x6F0, 0x6F9), (0x7C0, 0x7C9), (0x966, 0x96F),
      (0x9E6, 0x9EF), (0xA66, 0xA6F), (0xAE6, 0xAEF), (0xB66, 0xB6F), (0xBE6, 0xBEF),
      (0xC66, 0xC6F), (0xCE6, 0xCEF), (0xD66, 0xD6F), (0xDE6, 0xDEF), (0xE50, 0xE59),
      (0xED0, 0xED9), (0xF20, 0xF29), (0x1040, 0x1049), (0x1090, 0x1099), (0x17E0, 0x17E9),
      (0x1810, 0x1819), (0x1946, 0x194F), (0x19D0, 0x19D9), (0x1A80, 0x1A89), (0x1A90, 0x1A99),
      (0x1B50, 0x1B59), (0x1BB0, 0x1BB9), (0x1C40, 0x1C49), (0x1C50, 0x1C59), (0xA620, 0xA629),
      (0xA8D0, 0xA8D9), (0xA900, 0xA909), (0xA9D0, 0xA9D9), (0xA9F0, 0xA9F9), (0xAA50, 0xAA59),
      (0xABF0, 0xABF9), (0xFF10, 0xFF19), (0x104A0, 0x104A9), (0x10D30, 0x10D39),
      (0x11066, 0x1106F), (0x110F0, 0x110F9), (0x11136, 0x1113F), (0x111D0, 0x111D9),
      (0x112F0, 0x112F9), (0x11450, 0x11459), (0x114D0, 0x114D9), (0x11650, 0x11659),
      (0x116C0, 0x116C9), (0x11730, 0x11739), (0x118E0, 0x118E9), (0x11950, 0x11959),
      (0x11C50, 0x11C59), (0x11D50, 0x11D59), (0x11DA0, 0x11DA9), (0x16A60, 0x16A69),
      (0x16AC0, 0x16AC9), (0x16B50, 0x16B59), (0x1D7CE, 0x1D7FF), (0x1E140, 0x1E149),
      (0x1E2F0, 0x1E2F9), (0x1E950, 0x1E959), (0x1FBF0, 0x1FBF9)]"

text \<open>The digit a code point stands for, when it is a decimal digit.\<close>

definition decimal_value :: "nat \<Rightarrow> nat option" where
  "decimal_value c =
     (case find (\<lambda>(lo, hi). lo \<le> c \<and> c \<le> hi) decimal_ranges of
        None \<Rightarrow> None
      | Some (lo, hi) \<Rightarrow> Some ((c - lo) mod 10))"

definition is_decimal :: "nat \<Rightarrow> bool" where
  "is_decimal c = (decimal_value c \<noteq> None)"

definition take_digits :: "nat \<Rightarrow> str \<Rightarrow> (str \<times> str) option" where
  "take_digits n s =
     (if n \<le> length s \<and> list_all is_decimal (take n s) then Some (take n s, drop n s) else None)"

definition take_char :: "nat \<Rightarrow> str \<Rightarrow> str option" where
  "take_char c s = (case s of [] \<Rightarrow> None | x # r \<Rightarrow> if x = c then Some r else None)"

definition skip_fraction :: "str \<Rightarrow> str" where
  "skip_fraction s =
     (case s of
        p # d # r \<Rightarrow> if p = 46 \<and> is_decimal d then dropWhile is_decimal r else s
      | _ \<Rightarrow> s)"

definition DATETIME_REGEX_search :: "str \<Rightarrow> (str \<times> str \<times> str \<times> str \<times> str \<times> str) option" where
  "DATETIME_REGEX_search s0 =
     do {
       (y, s) \<leftarrow> take_digits 4 s0;
       s \<leftarrow> take_char 45 s;
       (mo, s) \<leftarrow> take_digits 2 s;
       s \<leftarrow> take_char 45 s;
       (d, s) \<leftarrow> take_digits 2 s;
       s \<leftarrow> take_char 84 s;
       (h, s) \<leftarrow> take_digits 2 s;
       s \<leftarrow> take_char 58 s;
       (mi, s) \<leftarrow> take_digits 2 s;
       s \<leftarrow> take_char 58 s;
       (se, s) \<leftarrow> take_digits 2 s;
       s \<leftarrow> take_char 90 (skip_fraction s);
       if s = [] \<or> s = [10] then Some (y, mo, d, h, mi, se) else None
     }"

text \<open>\<^verbatim>\<open>int(dv)\<close> on a group of decimal digits.\<close>

definition decimal_int :: "str \<Rightarrow> nat" where
  "decimal_int ds =
     foldl (\<lambda>acc c. acc * 10 + (case decimal_value c of None \<Rightarrow> 0 | Some v \<Rightarrow> v)) 0 ds"

text \<open>The number a text of ASCII digits writes.\<close>

definition int_of_digits :: "str \<Rightarrow> nat" where
  "int_of_digits ds = foldl (\<lambda>acc c. acc * 10 + (c - 48)) 0 ds"

text \<open>\<^verbatim>\<open>datetime.datetime(year, month, day, hour, minute, second)\<close>\<close>

definition datetime_new :: "nat \<Rightarrow> nat \<Rightarrow> nat \<Rightarrow> nat \<Rightarrow> nat \<Rightarrow> nat \<Rightarrow> exn + pyval" where
  "datetime_new y mo d h mi s =
     (if \<not> (1 \<le> y \<and> y \<le> 9999)
      then Inl (ValueError (ustr ''year '' @ str_nat y @ ustr '' is out of range''))
      else if \<not> (1 \<le> mo \<and> mo \<le> 12) then Inl (ValueError (ustr ''month must be in 1..12''))
      else if \<not> (1 \<le> d \<and> d \<le> days_in_month y mo)
      then Inl (ValueError (ustr ''day is out of range for month''))
      else if \<not> h < 24 then Inl (ValueError (ustr ''hour must be in 0..23''))
      else if \<not> mi < 60 then Inl (ValueError (ustr ''minute must be in 0..59''))
      else if \<not> s < 60 then Inl (ValueError (ustr ''second must be in 0..59''))
      else Inr (PDateTime \<lparr>year = y, month = mo, day = d, hour = h, minute = mi, second = s,
                            microsecond = 0, utcoffset = None\<rparr>))"

text \<open>
  \<^verbatim>\<open>_to_python\<close>.  \<^verbatim>\<open>ast.literal_eval\<close> belongs to the standard library and is a
  parameter, \<open>literal_eval\<close>: it returns a value or raises.  On a value that is not a
  text it raises \<^verbatim>\<open>ValueError\<close>, which the function catches like the failures on a text.
\<close>

definition to_python :: "(str \<Rightarrow> exn + pyval) \<Rightarrow> field_value \<Rightarrow> exn + pyval" where
  "to_python literal_eval v =
     (case v of
        Single (PInt n) \<Rightarrow> Inr (PInt n)
      | Single (PBool b) \<Rightarrow> Inr (PBool b)
      | Single (PFloat x) \<Rightarrow> Inr (PFloat x)
      | _ \<Rightarrow>
        (case (case v of Single x \<Rightarrow> Inr x | Multi [] \<Rightarrow> Inl IndexError | Multi (x # xs) \<Rightarrow> Inr x) of
           Inl e \<Rightarrow> Inl e
         | Inr val \<Rightarrow>
             if val = PStr (ustr ''true'') then Inr (PBool True)
             else if val = PStr (ustr ''false'') then Inr (PBool False)
             else
               (let val = (case val of PBytes b \<Rightarrow> PStr (force_unicode (PBytes b)) | _ \<Rightarrow> val)
                in case (case val of PStr s \<Rightarrow> DATETIME_REGEX_search s | _ \<Rightarrow> None) of
                     Some (y, mo, d, h, mi, se) \<Rightarrow>
                       datetime_new (decimal_int y) (decimal_int mo) (decimal_int d)
                         (decimal_int h) (decimal_int mi) (decimal_int se)
                   | None \<Rightarrow>
                       (case val of
                          PStr s \<Rightarrow>
                            (case literal_eval s of
                               Inr r \<Rightarrow> Inr r
                             | Inl e \<Rightarrow> if is_ValueError e \<or> is_SyntaxError e then Inr val else Inl e)
                        | _ \<Rightarrow> Inr val))))"

text \<open>
  An instance of the parameter for concrete evaluations: a decimal integer literal with an
  optional minus sign evaluates to its integer, every other text is refused.
\<close>

definition int_literal :: "str \<Rightarrow> exn + pyval" where
  "int_literal s =
     (let ds = (case s of [] \<Rightarrow> [] | c # r \<Rightarrow> if c = 45 then r else s)
      in if ds \<noteq> [] \<and> list_all is_digit ds \<and> (hd ds \<noteq> 48 \<or> list_all (\<lambda>c. c = 48) ds)
         then Inr (PInt (if ds = s then int (int_of_digits ds) else - int (int_of_digits ds)))
         else Inl SyntaxError)"

text \<open>
  A second instance, which also knows one float: the literal \<^verbatim>\<open>1.5\<close> evaluates to that
  float, and the names \<^verbatim>\<open>inf\<close>, \<^verbatim>\<open>-inf\<close> and \<^verbatim>\<open>nan\<close> are no literals, for which
  \<^verbatim>\<open>ast.literal_eval\<close> raises \<^verbatim>\<open>ValueError\<close>.
\<close>

definition sample_literal_eval :: "str \<Rightarrow> exn + pyval" where
  "sample_literal_eval s =
     (if s = ustr ''1.5'' then Inr (PFloat (Finite (ustr ''1.5'')))
      else if s = ustr ''inf'' \<or> s = ustr ''-inf'' \<or> s = ustr ''nan''
      then Inl (ValueError (ustr ''malformed node or string''))
      else int_literal s)"

text \<open>
  What every text \<^verbatim>\<open>repr\<close> writes for a finite float has: digits, a sign, a point and an
  exponent mark, and at least the point or the exponent mark.
\<close>

definition float_repr_shape :: "str \<Rightarrow> bool" where
  "float_repr_shape s =
     (list_all (\<lambda>c. is_digit c \<or> c = 43 \<or> c = 45 \<or> c = 46 \<or> c = 101) s
      \<and> (46 \<in> set s \<or> 101 \<in> set s))"

text \<open>\<^verbatim>\<open>_is_null_value\<close>\<close>

definition is_null_value :: "pyval \<Rightarrow> bool" where
  "is_null_value v = (v = PNone \<or> (case v of PStr s \<Rightarrow> length s = 0 | _ \<Rightarrow> False))"

text \<open>The text \<^verbatim>\<open>_from_python\<close> builds for a naive date-time, before the XML filter.\<close>

definition iso_text :: "datetime \<Rightarrow> str" where
  "iso_text dt =
     pad 4 (year dt) @ 45 # pad 2 (month dt) @ 45 # pad 2 (day dt) @ 84 #
     pad 2 (hour dt) @ 58 # pad 2 (minute dt) @ 58 # pad 2 (second dt) @
     (if microsecond dt \<noteq> 0 then 46 # pad 6 (microsecond dt) else []) @ [90]"


text \<open>The shape of a text: every decimal digit is replaced by the letter \<^verbatim>\<open>d\<close>.\<close>

definition digit_shape :: "str \<Rightarrow> str" where
  "digit_shape s = map (\<lambda>c. if is_digit c then 100 else c) s"

section \<open>Dictionaries and XML elements\<close>

text \<open>
  A \<^verbatim>\<open>dict\<close> is an association list in insertion order with distinct keys;
  \<^verbatim>\<open>d[k] = v\<close> replaces the value of a present key in place and appends a new one.
\<close>

fun dict_set :: "('k \<times> 'v) list \<Rightarrow> 'k \<Rightarrow> 'v \<Rightarrow> ('k \<times> 'v) list" where
  "dict_set [] k v = [(k, v)]"
| "dict_set ((k', v') # kvs) k v =
     (if k' = k then (k', v) # kvs else (k', v') # dict_set kvs k v)"

text \<open>\<^verbatim>\<open>d.update(other)\<close>\<close>

definition dict_update :: "('k \<times> 'v) list \<Rightarrow> ('k \<times> 'v) list \<Rightarrow> ('k \<times> 'v) list" where
  "dict_update d other = foldl (\<lambda>acc (k, v). dict_set acc k v) d other"

text \<open>
  An attribute value of an element the module builds: a text, or what \<^verbatim>\<open>str()\<close> makes of
  a list or tuple, which is kept as the sequence itself.
\<close>

datatype attr = AText str | AStrOf "pyval list"

text \<open>\<^verbatim>\<open>force_unicode\<close> on a field's value.\<close>

fun force_unicode_value :: "field_value \<Rightarrow> attr" where
  "force_unicode_value (Single v) = AText (force_unicode v)"
| "force_unicode_value (Multi vs) = AStrOf vs"

text \<open>\<^verbatim>\<open>xml.etree.ElementTree.Element\<close>: tag, attributes, text and children.\<close>

datatype element =
  Element (tag: str) (attrib: "(str \<times> attr) list") (etext: "str option") (children: "element list")

section \<open>The document builder\<close>

text \<open>The attributes of a field element: its name, then the update mode, then the boost.\<close>

definition field_attrs ::
  "str \<Rightarrow> (str \<times> pyval) list option \<Rightarrow> (str \<times> str) list option \<Rightarrow> (str \<times> attr) list" where
  "field_attrs key boost fieldUpdates =
     (let attrs = [(ustr ''name'', AText key)];
          attrs = (case fieldUpdates of
                     Some fu \<Rightarrow>
                       (case map_of fu key of
                          Some u \<Rightarrow> if fu \<noteq> [] then dict_set attrs (ustr ''update'') (AText u) else attrs
                        | None \<Rightarrow> attrs)
                   | None \<Rightarrow> attrs);
          attrs = (case boost of
                     Some bo \<Rightarrow>
                       (case map_of bo key of
                          Some b \<Rightarrow>
                            if bo \<noteq> [] then dict_set attrs (ustr ''boost'') (AText (force_unicode b))
                            else attrs
                        | None \<Rightarrow> attrs)
                   | None \<Rightarrow> attrs)
      in attrs)"

text \<open>The loop over the values of one field: a null value is skipped.\<close>

fun build_fields ::
  "str \<Rightarrow> (str \<times> pyval) list option \<Rightarrow> (str \<times> str) list option \<Rightarrow> pyval list \<Rightarrow> element list" where
  "build_fields key boost fieldUpdates [] = []"
| "build_fields key boost fieldUpdates (b # values) =
     (if is_null_value b then build_fields key boost fieldUpdates values
      else Element (ustr ''field'') (field_attrs key boost fieldUpdates) (Some (from_python b)) []
           # build_fields key boost fieldUpdates values)"

text \<open>A value that is a list or tuple is iterated, any other is treated as a tuple of one.\<close>

fun values_of :: "field_value \<Rightarrow> pyval list" where
  "values_of (Multi vs) = vs"
| "values_of (Single v) = [v]"

text \<open>\<^verbatim>\<open>_build_doc\<close>: the loop over \<^verbatim>\<open>doc.items()\<close>, with the element built so far.\<close>

fun build_doc_loop ::
  "(str \<times> pyval) list option \<Rightarrow> (str \<times> str) list option \<Rightarrow> element \<Rightarrow>
   (str \<times> field_value) list \<Rightarrow> element" where
  "build_doc_loop boost fieldUpdates doc_elem [] = doc_elem"
| "build_doc_loop boost fieldUpdates doc_elem ((key, val) # items) =
     (if key = ustr ''boost''
      then build_doc_loop boost fieldUpdates
             (Element (tag doc_elem)
                (dict_set (attrib doc_elem) (ustr ''boost'') (force_unicode_value val))
                (etext doc_elem) (children doc_elem))
             items
      else build_doc_loop boost fieldUpdates
             (Element (tag doc_elem) (attrib doc_elem) (etext doc_elem)
                (children doc_elem @ build_fields key boost fieldUpdates (values_of val)))
             items)"

definition build_doc ::
  "(str \<times> field_value) list \<Rightarrow> (str \<times> pyval) list option \<Rightarrow> (str \<times> str) list option \<Rightarrow> element" where
  "build_doc doc boost fieldUpdates =
     build_doc_loop boost fieldUpdates (Element (ustr ''doc'') [] None []) doc"

text \<open>The field elements a document element holds for one field name.\<close>

definition fields_named :: "str \<Rightarrow> element \<Rightarrow> element list" where
  "fields_named key doc_elem =
     filter (\<lambda>e. tag e = ustr ''field'' \<and> map_of (attrib e) (ustr ''name'') = Some (AText key))
       (children doc_elem)"

section \<open>The request dispatcher\<close>

text \<open>The decoded JSON of a response; numbers are integers.\<close>

datatype json =
    JNull
  | JBool bool
  | JInt int
  | JStr str
  | JList "json list"
  | JDict "(str \<times> json) list"

text \<open>\<^verbatim>\<open>tornado.httpclient.HTTPRequest\<close>\<close>

record request =
  req_url :: str
  req_method :: str
  req_headers :: "(str \<times> str) list"
  req_body :: "bytes option"
  request_timeout :: nat

text \<open>
  The client object.  The JSON decoder and the HTTP client are collaborators: the decoder
  returns the decoded value or raises, and \<open>fetch\<close> returns the response or raises
  (tornado raises \<^verbatim>\<open>HTTPError\<close> for a response outside 2xx).
\<close>

record solr =
  solr_url :: str
  solr_timeout :: nat
  solr_decoder :: "str \<Rightarrow> exn + json"
  solr_fetch :: "request \<Rightarrow> exn + response"

text \<open>The requests handed to the HTTP client so far, oldest first.\<close>

type_synonym net = "request list"

definition rstrip_char :: "nat \<Rightarrow> str \<Rightarrow> str" where
  "rstrip_char c s = rev (dropWhile (\<lambda>x. x = c) (rev s))"

definition lstrip_char :: "nat \<Rightarrow> str \<Rightarrow> str" where
  "lstrip_char c s = dropWhile (\<lambda>x. x = c) s"

text \<open>\<^verbatim>\<open>_create_full_url\<close>\<close>

definition create_full_url :: "solr \<Rightarrow> str \<Rightarrow> str" where
  "create_full_url self path =
     (if length path \<noteq> 0
      then join (ustr ''/'') [rstrip_char 47 (solr_url self), lstrip_char 47 path]
      else solr_url self)"

definition FETCH_VALUE_ERROR :: "str \<Rightarrow> str" where
  "FETCH_VALUE_ERROR u = ustr ''URL is empty or protocol missing: '' @ u"

definition FETCH_UNICODE_ERROR :: "str \<Rightarrow> str" where
  "FETCH_UNICODE_ERROR u = ustr ''URL is too long: '' @ u"

definition FETCH_SOCKET_ERROR :: "str \<Rightarrow> str" where
  "FETCH_SOCKET_ERROR u = ustr ''Socket error (DNS?) connecting to '' @ u"

definition FETCH_KEY_ERROR :: "str \<Rightarrow> str" where
  "FETCH_KEY_ERROR m = ustr ''Unknown HTTP method '' @ [34] @ m @ [34]"

definition FETCH_CONN_ERROR :: "str \<Rightarrow> str" where
  "FETCH_CONN_ERROR u = ustr ''Connection error with '' @ u"

text \<open>
  The \<^verbatim>\<open>except\<close> clauses of \<^verbatim>\<open>_send_request\<close>, in their order.  An \<^verbatim>\<open>HTTPError\<close> without a
  response makes \<^verbatim>\<open>the_error.response.reason\<close> raise \<^verbatim>\<open>AttributeError\<close>; an exception
  no clause names is passed on.
\<close>

definition fetch_error :: "str \<Rightarrow> str \<Rightarrow> exn \<Rightarrow> exn" where
  "fetch_error u m e =
     (if is_UnicodeError e then SolrError (FETCH_UNICODE_ERROR u)
      else if is_ValueError e then SolrError (FETCH_VALUE_ERROR u)
      else if e = Gaierror then SolrError (FETCH_SOCKET_ERROR u)
      else if e = KeyError then SolrError (FETCH_KEY_ERROR m)
      else if e = ConnectionError then SolrError (FETCH_CONN_ERROR u)
      else (case e of
              HTTPError c r \<Rightarrow>
                (case r of
                   None \<Rightarrow> AttributeError
                 | Some resp \<Rightarrow> SolrError (str_int c @ ustr '': '' @ resp_reason resp))
            | _ \<Rightarrow> e))"

text \<open>
  \<^verbatim>\<open>_send_request\<close>.  The logging and the timing are left out; \<open>files\<close> stands for the
  parameter of that name.  The result is the text of the response or the exception, with
  the requests handed to the client.
\<close>

definition send_request ::
  "solr \<Rightarrow> str \<Rightarrow> str \<Rightarrow> str option \<Rightarrow> (str \<times> str) list option \<Rightarrow> bytes option \<Rightarrow> net
   \<Rightarrow> (exn + str) \<times> net" where
  "send_request self meth path body hdrs files net =
     (let u = create_full_url self path;
          m = upper meth;
          hdrs = (case hdrs of None \<Rightarrow> [] | Some h \<Rightarrow> h)
      in if files \<noteq> None
         then (Inl (NotImplementedError
                 (ustr ''The '' @ [34] @ ustr ''files'' @ [34]
                  @ ustr '' parameter in _send_request() does not work in Tornado yet'')),
               net)
         else
           (let bytes_body = (case body of None \<Rightarrow> None | Some b \<Rightarrow> Some (force_bytes b));
                req = \<lparr>req_url = u, req_method = m, req_headers = hdrs,
                       req_body = bytes_body, request_timeout = solr_timeout self\<rparr>
            in case solr_fetch self req of
                 Inl e \<Rightarrow> (Inl (fetch_error u m e), net @ [req])
               | Inr resp \<Rightarrow> (Inr (force_unicode (PBytes (resp_body resp))), net @ [req])))"

text \<open>
  \<^verbatim>\<open>urlencode(params, True)\<close> of the standard library is a parameter of the functions
  below: it returns the query string or raises.
\<close>

type_synonym urlencoder = "(str \<times> field_value) list \<Rightarrow> exn + str"

definition form_headers :: "(str \<times> str) list" where
  "form_headers =
     [(ustr ''Content-type'', ustr ''application/x-www-form-urlencoded; charset=utf-8'')]"

text \<open>\<^verbatim>\<open>_select\<close>\<close>

definition select ::
  "solr \<Rightarrow> urlencoder \<Rightarrow> (str \<times> field_value) list \<Rightarrow> net \<Rightarrow> (exn + str) \<times> net" where
  "select self urlencode params net =
     (let params = dict_set params (ustr ''wt'') (Single (PStr (ustr ''json'')))
      in case urlencode params of
           Inl e \<Rightarrow> (Inl e, net)
         | Inr params_encoded \<Rightarrow>
             if length params_encoded < 1024
             then send_request self (ustr ''get'') (ustr ''select/?'' @ params_encoded)
                    None None None net
             else send_request self (ustr ''post'') (ustr ''select/'') (Some params_encoded)
                    (Some form_headers) None net)"

text \<open>\<^verbatim>\<open>_suggest_terms\<close>\<close>

definition suggest_terms_request ::
  "solr \<Rightarrow> urlencoder \<Rightarrow> (str \<times> field_value) list \<Rightarrow> net \<Rightarrow> (exn + str) \<times> net" where
  "suggest_terms_request self urlencode params net =
     (let params = dict_set params (ustr ''wt'') (Single (PStr (ustr ''json'')))
      in case urlencode params of
           Inl e \<Rightarrow> (Inl e, net)
         | Inr q \<Rightarrow> send_request self (ustr ''get'') (ustr ''terms/?'' @ q) None None None net)"

text \<open>\<^verbatim>\<open>str(bool(x)).lower()\<close>\<close>

definition bool_text :: "bool \<Rightarrow> str" where
  "bool_text b = (if b then ustr ''true'' else ustr ''false'')"

text \<open>
  \<^verbatim>\<open>_update\<close>.  The flags are \<^verbatim>\<open>None\<close> or a truth value.
\<close>

definition update ::
  "solr \<Rightarrow> str \<Rightarrow> bool \<Rightarrow> bool option \<Rightarrow> bool option \<Rightarrow> bool option \<Rightarrow> bool option \<Rightarrow> net
   \<Rightarrow> (exn + str) \<times> net" where
  "update self message clean_ctrl_chars commit softCommit waitFlush waitSearcher net =
     (let path = ustr ''update/'';
          query_vars =
            (case commit of
               Some c \<Rightarrow> [ustr ''commit='' @ bool_text c]
             | None \<Rightarrow>
                 (case softCommit of
                    Some s \<Rightarrow> [ustr ''softCommit='' @ bool_text s]
                  | None \<Rightarrow> []));
          query_vars = query_vars @
            (case waitFlush of Some w \<Rightarrow> [ustr ''waitFlush='' @ bool_text w] | None \<Rightarrow> []);
          query_vars = query_vars @
            (case waitSearcher of Some w \<Rightarrow> [ustr ''waitSearcher='' @ bool_text w] | None \<Rightarrow> []);
          path = (if query_vars \<noteq> [] then path @ ustr ''?'' @ join (ustr ''&'') query_vars
                  else path);
          message = (if clean_ctrl_chars then sanitize message else message)
      in send_request self (ustr ''post'') path (Some message)
           (Some [(ustr ''Content-type'', ustr ''text/xml; charset=utf-8'')]) None net)"

text \<open>
  \<^verbatim>\<open>delete\<close>, with \<open>doc_id\<close> for the parameter \<^verbatim>\<open>id\<close>.  It calls \<^verbatim>\<open>_update\<close> with the
  defaults \<^verbatim>\<open>clean_ctrl_chars=True\<close> and \<^verbatim>\<open>softCommit=False\<close>.
\<close>

definition delete ::
  "solr \<Rightarrow> str option \<Rightarrow> str option \<Rightarrow> bool option \<Rightarrow> bool option \<Rightarrow> bool option \<Rightarrow> net
   \<Rightarrow> (exn + str) \<times> net" where
  "delete self doc_id q commit waitFlush waitSearcher net =
     (case (doc_id, q) of
        (None, None) \<Rightarrow>
          (Inl (ValueError (ustr ''You must specify '' @ [34] @ ustr ''id'' @ [34] @ ustr '' or ''
                            @ [34] @ ustr ''q'' @ [34] @ ustr ''.'')), net)
      | (Some i, Some qq) \<Rightarrow>
          (Inl (ValueError (ustr ''You many only specify '' @ [34] @ ustr ''id'' @ [34]
                            @ ustr '' OR '' @ [34] @ ustr ''q'' @ [34] @ ustr '', not both.'')), net)
      | (Some i, None) \<Rightarrow>
          update self (ustr ''<delete><id>'' @ i @ ustr ''</id></delete>'') True commit
            (Some False) waitFlush waitSearcher net
      | (None, Some qq) \<Rightarrow>
          update self (ustr ''<delete><query>'' @ qq @ ustr ''</query></delete>'') True commit
            (Some False) waitFlush waitSearcher net)"

text \<open>A client whose HTTP client refuses every connection, for concrete evaluations.\<close>

definition offline :: solr where
  "offline = \<lparr>solr_url = ustr ''http://localhost:8983/solr'', solr_timeout = 60,
              solr_decoder = (\<lambda>t. Inl (ValueError [])), solr_fetch = (\<lambda>r. Inl ConnectionError)\<rparr>"


section \<open>Term suggestions\<close>

text \<open>The truth value of a decoded JSON value, which \<^verbatim>\<open>while values:\<close> tests.\<close>

fun truthy :: "json \<Rightarrow> bool" where
  "truthy JNull = False"
| "truthy (JBool b) = b"
| "truthy (JInt n) = (n \<noteq> 0)"
| "truthy (JStr s) = (s \<noteq> [])"
| "truthy (JList xs) = (xs \<noteq> [])"
| "truthy (JDict kvs) = (kvs \<noteq> [])"

text \<open>
  Keys of a dictionary built from decoded JSON: lists and dictionaries cannot be hashed,
  and \<^verbatim>\<open>True\<close> and \<^verbatim>\<open>False\<close> are the same keys as 1 and 0.
\<close>

fun hashable :: "json \<Rightarrow> bool" where
  "hashable (JList xs) = False"
| "hashable (JDict kvs) = False"
| "hashable j = True"

fun key_number :: "json \<Rightarrow> int option" where
  "key_number (JBool b) = Some (if b then 1 else 0)"
| "key_number (JInt n) = Some n"
| "key_number j = None"

definition key_eq :: "json \<Rightarrow> json \<Rightarrow> bool" where
  "key_eq a b =
     (case (key_number a, key_number b) of
        (Some x, Some y) \<Rightarrow> x = y
      | (None, None) \<Rightarrow> a = b
      | _ \<Rightarrow> False)"

fun jdict_set :: "(json \<times> 'v) list \<Rightarrow> json \<Rightarrow> 'v \<Rightarrow> (json \<times> 'v) list" where
  "jdict_set [] k v = [(k, v)]"
| "jdict_set ((k', v') # kvs) k v =
     (if key_eq k' k then (k', v) # kvs else (k', v') # jdict_set kvs k v)"

text \<open>\<^verbatim>\<open>dict(pairs)\<close>: a key that cannot be hashed raises \<^verbatim>\<open>TypeError\<close>.\<close>

fun dict_of_pairs :: "(json \<times> json) list \<Rightarrow> (json \<times> json) list \<Rightarrow> exn + (json \<times> json) list" where
  "dict_of_pairs acc [] = Inr acc"
| "dict_of_pairs acc ((k, v) # kvs) =
     (if hashable k then dict_of_pairs (jdict_set acc k v) kvs else Inl TypeError)"

text \<open>The slices \<^verbatim>\<open>xs[0::2]\<close> and \<^verbatim>\<open>xs[1::2]\<close>.\<close>

fun slice_even :: "'a list \<Rightarrow> 'a list" where
  "slice_even [] = []"
| "slice_even [x] = [x]"
| "slice_even (x # y # xs) = x # slice_even xs"

fun slice_odd :: "'a list \<Rightarrow> 'a list" where
  "slice_odd [] = []"
| "slice_odd [x] = []"
| "slice_odd (x # y # xs) = y # slice_odd xs"

text \<open>
  The loop \<^verbatim>\<open>while values: tmp.append((values.pop(0), values.pop(0)))\<close> on a list: the
  second \<^verbatim>\<open>pop\<close> raises \<^verbatim>\<open>IndexError\<close> when one element is left.
\<close>

fun pop_pairs :: "json list \<Rightarrow> exn + (json \<times> json) list" where
  "pop_pairs [] = Inr []"
| "pop_pairs [x] = Inl IndexError"
| "pop_pairs (x # y # xs) =
     (case pop_pairs xs of Inl e \<Rightarrow> Inl e | Inr ps \<Rightarrow> Inr ((x, y) # ps))"

text \<open>
  The same loop on any decoded value: a value that is false is skipped, a dictionary has
  no key 0 to pop, and the other values have no \<^verbatim>\<open>pop\<close>.
\<close>

fun term_pairs :: "json \<Rightarrow> exn + (json \<times> json) list" where
  "term_pairs (JList xs) = pop_pairs xs"
| "term_pairs (JDict kvs) = (if kvs = [] then Inr [] else Inl KeyError)"
| "term_pairs j = (if truthy j then Inl AttributeError else Inr [])"

text \<open>The loop over \<^verbatim>\<open>terms.items()\<close>, with the result built so far.\<close>

fun collect_terms ::
  "(json \<times> (json \<times> json) list) list \<Rightarrow> (json \<times> json) list
   \<Rightarrow> exn + (json \<times> (json \<times> json) list) list" where
  "collect_terms res [] = Inr res"
| "collect_terms res ((field, vals) # items) =
     (case term_pairs vals of
        Inl e \<Rightarrow> Inl e
      | Inr tmp \<Rightarrow> collect_terms (jdict_set res field tmp) items)"

text \<open>
  What \<^verbatim>\<open>suggest_terms\<close> does with the decoded response.  The keys of a decoded JSON
  object are texts; the keys of the older flat list are whatever the list holds.
\<close>

definition terms_of_result :: "json \<Rightarrow> exn + (json \<times> (json \<times> json) list) list" where
  "terms_of_result result =
     (case result of
        JDict d \<Rightarrow>
          (let terms = (case map_of d (ustr ''terms'') of None \<Rightarrow> JDict [] | Some t \<Rightarrow> t)
           in case (case terms of
                      JList xs \<Rightarrow> dict_of_pairs [] (zip (slice_even xs) (slice_odd xs))
                    | JDict kvs \<Rightarrow> Inr (map (\<lambda>(k, v). (JStr k, v)) kvs)
                    | _ \<Rightarrow> Inl AttributeError) of
                Inl e \<Rightarrow> Inl e
              | Inr items \<Rightarrow> collect_terms [] items)
      | _ \<Rightarrow> Inl AttributeError)"

text \<open>
  \<^verbatim>\<open>suggest_terms\<close>, with \<open>field_names\<close> and \<open>term_prefix\<close> for the parameters \<^verbatim>\<open>fields\<close>
  and \<^verbatim>\<open>prefix\<close>.
\<close>

definition suggest_terms ::
  "solr \<Rightarrow> urlencoder \<Rightarrow> field_value \<Rightarrow> field_value \<Rightarrow> (str \<times> field_value) list \<Rightarrow> net
   \<Rightarrow> (exn + (json \<times> (json \<times> json) list) list) \<times> net" where
  "suggest_terms self urlencode field_names term_prefix kwargs net =
     (let params = [(ustr ''terms.fl'', field_names), (ustr ''terms.prefix'', term_prefix)];
          params = dict_update params kwargs
      in case suggest_terms_request self urlencode params net of
           (Inl e, net') \<Rightarrow> (Inl e, net')
         | (Inr response, net') \<Rightarrow>
             (case solr_decoder self response of
                Inl e \<Rightarrow> (Inl e, net')
              | Inr result \<Rightarrow> (terms_of_result result, net')))"

text \<open>
  The two wire shapes for the terms of some fields, each field with the list Solr sends
  for it: the flat list alternates field names and lists, the mapping has the field names
  as keys.
\<close>

definition flat_terms :: "(str \<times> json list) list \<Rightarrow> json" where
  "flat_terms kvs =
     JDict [(ustr ''terms'', JList (concat (map (\<lambda>(k, xs). [JStr k, JList xs]) kvs)))]"

definition mapping_terms :: "(str \<times> json list) list \<Rightarrow> json" where
  "mapping_terms kvs = JDict [(ustr ''terms'', JDict (map (\<lambda>(k, xs). (k, JList xs)) kvs))]"

text \<open>The pairs of a list that alternates terms and counts: the elements 2i and 2i+1.\<close>

definition paired :: "'a list \<Rightarrow> ('a \<times> 'a) list" where
  "paired xs = map (\<lambda>i. (xs ! (2 * i), xs ! (2 * i + 1))) [0..<length xs div 2]"

text \<open>
  A client whose HTTP client answers every request with an empty 200 response and whose
  decoder returns a fixed value, for concrete evaluations.
\<close>

definition canned :: "json \<Rightarrow> solr" where
  "canned j =
     \<lparr>solr_url = ustr ''http://localhost:8983/solr'', solr_timeout = 60,
      solr_decoder = (\<lambda>t. Inr j),
      solr_fetch = (\<lambda>r. Inr \<lparr>resp_code = 200, resp_reason = ustr ''OK'', resp_headers = [],
                                resp_body = []\<rparr>)\<rparr>"

section \<open>The error scraper\<close>

text \<open>\<^verbatim>\<open>s.startswith(p)\<close>\<close>

definition startswith :: "str \<Rightarrow> str \<Rightarrow> bool" where
  "startswith p s = (take (length p) s = p)"

text \<open>
  \<^verbatim>\<open>Element.find(path)\<close> for the two-step paths the scraper uses: the first grandchild,
  in document order, that satisfies the second step below a child that satisfies the
  first.  A step is a tag, with or without a predicate on the attribute \<^verbatim>\<open>name\<close>.
\<close>

definition find_path :: "(element \<Rightarrow> bool) \<Rightarrow> (element \<Rightarrow> bool) \<Rightarrow> element \<Rightarrow> element option" where
  "find_path step1 step2 e =
     (case concat (map (\<lambda>c. filter step2 (children c)) (filter step1 (children e))) of
        [] \<Rightarrow> None
      | n # ns \<Rightarrow> Some n)"

text \<open>The step \<^verbatim>\<open>t\<close> and the step \<^verbatim>\<open>t[@name="v"]\<close>.\<close>

definition tagged :: "str \<Rightarrow> element \<Rightarrow> bool" where
  "tagged t e = (tag e = t)"

definition named :: "str \<Rightarrow> str \<Rightarrow> element \<Rightarrow> bool" where
  "named t v e = (tag e = t \<and> map_of (attrib e) (ustr ''name'') = Some (AText v))"

text \<open>
  \<^verbatim>\<open>re.search(r'<(h1)[^>]*>\s*(.+?)\s*</\1>', response, re.IGNORECASE)\<close>, written out as
  the matcher of that pattern; the result is the second group of the match.  Under
  \<^verbatim>\<open>IGNORECASE\<close> the letter \<^verbatim>\<open>h\<close> matches \<^verbatim>\<open>h\<close> and \<^verbatim>\<open>H\<close>, also in the back
  reference.  The dot matches every character but the newline.
\<close>

definition is_h :: "nat \<Rightarrow> bool" where
  "is_h c = (c = 104 \<or> c = 72)"

text \<open>
  \<^verbatim>\<open>\s*</\1>\<close> at the head of a text.  The white space is followed by \<^verbatim>\<open><\<close>, which is no
  white space, so the whole run of white space is taken.
\<close>

definition h1_close :: "str \<Rightarrow> bool" where
  "h1_close s =
     (case dropWhile isspace s of
        a # b # c # d # e # r \<Rightarrow> a = 60 \<and> b = 47 \<and> is_h c \<and> d = 49 \<and> e = 62
      | _ \<Rightarrow> False)"

text \<open>\<^verbatim>\<open>(.+?)\s*</\1>\<close>: the group is the shortest one after which the rest matches.\<close>

fun h1_lazy :: "str \<Rightarrow> str option" where
  "h1_lazy [] = None"
| "h1_lazy (c # r) =
     (if c = 10 then None
      else if h1_close r then Some [c]
      else map_option (\<lambda>g. c # g) (h1_lazy r))"

text \<open>
  \<^verbatim>\<open>\s*(.+?)\s*</\1>\<close>: the leading white space is taken as far as it goes, and given
  back one character at a time while the rest does not match.
\<close>

fun h1_body :: "str \<Rightarrow> str option" where
  "h1_body [] = None"
| "h1_body (c # r) =
     (if isspace c
      then (case h1_body r of Some g \<Rightarrow> Some g | None \<Rightarrow> h1_lazy (c # r))
      else h1_lazy (c # r))"

text \<open>
  The whole pattern at the head of a text.  \<^verbatim>\<open>[^>]*\<close> is followed by \<^verbatim>\<open>>\<close>, so it stops
  at the first \<^verbatim>\<open>>\<close>.
\<close>

definition h1_at :: "str \<Rightarrow> str option" where
  "h1_at s =
     (case s of
        a # b # c # r \<Rightarrow>
          if a = 60 \<and> is_h b \<and> c = 49
          then (case dropWhile (\<lambda>x. x \<noteq> 62) r of [] \<Rightarrow> None | x # t \<Rightarrow> h1_body t)
          else None
      | _ \<Rightarrow> None)"

text \<open>The search: the match at the first position that has one.\<close>

fun h1_search :: "str \<Rightarrow> str option" where
  "h1_search [] = None"
| "h1_search (c # r) = (case h1_at (c # r) of Some g \<Rightarrow> Some g | None \<Rightarrow> h1_search r)"

text \<open>The response the scraper is given: text, or bytes, which have \<^verbatim>\<open>decode\<close>.\<close>

datatype payload = Text str | Bytes bytes

text \<open>\<^verbatim>\<open>bool(x)\<close> for a text or \<^verbatim>\<open>None\<close>, and for the detail, which is a text or bytes.\<close>

definition nonempty :: "str option \<Rightarrow> bool" where
  "nonempty r = (case r of None \<Rightarrow> False | Some s \<Rightarrow> s \<noteq> [])"

text \<open>\<^verbatim>\<open>node.text.strip()\<close>, which raises \<^verbatim>\<open>AttributeError\<close> when the node has no text.\<close>

definition text_strip :: "element \<Rightarrow> exn + str" where
  "text_strip n = (case etext n of None \<Rightarrow> Inl AttributeError | Some t \<Rightarrow> Inr (strip t))"

text \<open>
  The strict XML parse of \<^verbatim>\<open>_scrape_response\<close>: the body of its first \<^verbatim>\<open>try\<close>.  The
  parser, \<^verbatim>\<open>ET.fromstring\<close>, is a parameter: it returns the root element or raises.  The
  result is \<open>reason\<close>, \<open>full_html\<close> and whether the function returns them at once.
  \<^verbatim>\<open>ParseError\<close> and \<^verbatim>\<open>ExpatError\<close> are caught, every other exception is passed on.
\<close>

definition strict_parse :: "(str \<Rightarrow> exn + element) \<Rightarrow> str \<Rightarrow> exn + (str option \<times> str \<times> bool)" where
  "strict_parse fromstring response =
     (case fromstring response of
        Inl e \<Rightarrow> if e = ParseError \<or> e = ExpatError then Inr (None, [], False) else Inl e
      | Inr soup \<Rightarrow>
          (let reason_node = find_path (named (ustr ''lst'') (ustr ''error''))
                               (named (ustr ''str'') (ustr ''msg'')) soup;
               tb_node = find_path (named (ustr ''lst'') (ustr ''error''))
                           (named (ustr ''str'') (ustr ''trace'')) soup
           in case (case reason_node of
                      None \<Rightarrow> Inr (None, [])
                    | Some n \<Rightarrow> map_sum (\<lambda>e. e) (\<lambda>t. (Some t, t)) (text_strip n)) of
                Inl e \<Rightarrow> Inl e
              | Inr (reason, full_html) \<Rightarrow>
                  (case (case tb_node of
                           None \<Rightarrow> Inr (reason, full_html)
                         | Some n \<Rightarrow>
                             map_sum (\<lambda>e. e)
                               (\<lambda>t. (if reason = None then Some t else reason, t)) (text_strip n)) of
                     Inl e \<Rightarrow> Inl e
                   | Inr (reason, full_html) \<Rightarrow>
                       Inr (reason, full_html, nonempty reason \<and> full_html \<noteq> []))))"

text \<open>
  \<^verbatim>\<open>_scrape_response\<close>.  \<^verbatim>\<open>ET.fromstring\<close> and \<^verbatim>\<open>ET.tostring\<close> are parameters.  The
  headers are a mapping from names to texts.  \<open>full_html\<close> is a text, or the bytes
  \<^verbatim>\<open>ET.tostring\<close> returns.
\<close>

definition scrape_response ::
  "(str \<Rightarrow> exn + element) \<Rightarrow> (element \<Rightarrow> bytes) \<Rightarrow> (str \<rightharpoonup> str) \<Rightarrow> payload
   \<Rightarrow> exn + (str option \<times> str)" where
  "scrape_response fromstring tostring headers response =
     (let server_string = (case headers (ustr ''server'') of None \<Rightarrow> [] | Some s \<Rightarrow> s);
          server_type = (if server_string \<noteq> [] \<and> contains (ustr ''jetty'') (lower server_string)
                         then Some (ustr ''jetty'') else None);
          server_type = (if server_string \<noteq> [] \<and> contains (ustr ''coyote'') (lower server_string)
                         then Some (ustr ''tomcat'') else server_type)
      in case (case response of
                 Bytes b \<Rightarrow>
                   (case decode_utf8_strict b of None \<Rightarrow> Inl UnicodeDecodeError | Some s \<Rightarrow> Inr s)
               | Text s \<Rightarrow> Inr s) of
           Inl e \<Rightarrow> Inl e
         | Inr response \<Rightarrow>
             (case (if startswith (ustr ''<?xml'') response then strict_parse fromstring response
                    else Inr (None, [], False)) of
                Inl e \<Rightarrow> Inl e
              | Inr (reason, full_html, True) \<Rightarrow> Inr (reason, full_html)
              | Inr (reason, full_html, False) \<Rightarrow>
                  (case (if server_type = Some (ustr ''tomcat'')
                         then (case h1_search response of
                                 Some g \<Rightarrow> Inr (Some g, PStr full_html)
                               | None \<Rightarrow> Inr (reason, PStr response))
                         else (case fromstring response of
                                 Inl e \<Rightarrow>
                                   if is_SyntaxError e \<or> e = ExpatError
                                   then Inr (reason, PStr response) else Inl e
                               | Inr dom_tree \<Rightarrow>
                                   (let reason_node =
                                          (if server_type = Some (ustr ''jetty'')
                                           then find_path (tagged (ustr ''body'')) (tagged (ustr ''pre'')) dom_tree
                                           else find_path (tagged (ustr ''head'')) (tagged (ustr ''title'')) dom_tree);
                                        reason = (case reason_node of None \<Rightarrow> reason | Some n \<Rightarrow> etext n)
                                    in Inr (reason,
                                            if reason = None then PBytes (tostring dom_tree)
                                            else PStr full_html)))) of
                     Inl e \<Rightarrow> Inl e
                   | Inr (reason, full_html) \<Rightarrow>
                       Inr (reason,
                            strip (replace (ustr ''<br />'') []
                              (replace (ustr ''<br/>'') []
                                (replace [13] [] (replace [10] [] (force_unicode full_html)))))))))"

text \<open>
  A client whose HTTP client answers every request with the error for a response that is
  no success, for concrete evaluations.
\<close>

definition failing :: "response \<Rightarrow> solr" where
  "failing resp =
     \<lparr>solr_url = ustr ''http://localhost:8983/solr'', solr_timeout = 60,
      solr_decoder = (\<lambda>t. Inl (ValueError [])),
      solr_fetch = (\<lambda>r. Inl (HTTPError (resp_code resp) (Some resp)))\<rparr>"

text \<open>
  An instance of the parser for concrete evaluations: it knows one document and refuses
  every other text, and an instance of the serialiser, which writes the empty-element tag
  of the root.
\<close>

definition sample_fromstring :: "str \<Rightarrow> exn + element" where
  "sample_fromstring s =
     (if s = ustr ''<html><body><pre>boom</pre></body></html>''
      then Inr (Element (ustr ''html'') [] None
                  [Element (ustr ''body'') [] None
                     [Element (ustr ''pre'') [] (Some (ustr ''boom'')) []]])
      else Inl ParseError)"

definition sample_tostring :: "element \<Rightarrow> bytes" where
  "sample_tostring e = bstr ''<'' @ force_bytes (tag e) @ bstr '' />''"

section \<open>Properties of the codec and the string methods\<close>

lemma replace_Nil [simp]: "old \<noteq> [] \<Longrightarrow> replace old new [] = []"
  by (simp add: replace.simps)

lemma replace_single: "replace [b] [] s = filter (\<lambda>x. x \<noteq> b) s"
proof (induction s)
  case Nil
  then show ?case by simp
next
  case (Cons a s)
  then show ?case by (subst replace.simps) simp
qed

lemma foldl_replace_filter:
  "list_all (\<lambda>(bad, good). length bad = 1 \<and> good = []) R \<Longrightarrow>
   foldl (\<lambda>fixed (bad, good). replace bad good fixed) s R =
   filter (\<lambda>b. [b] \<notin> fst ` set R) s"
proof (induction R arbitrary: s)
  case Nil
  then show ?case by simp
next
  case (Cons r R)
  obtain bad good where r: "r = (bad, good)" by (cases r)
  with Cons.prems obtain b where b: "bad = [b]" "good = []"
    by (cases bad) auto
  from Cons.prems have "list_all (\<lambda>(bad, good). length bad = 1 \<and> good = []) R" by simp
  from Cons.IH[OF this] show ?case
    by (simp add: r b replace_single conj_commute)
qed

lemma REPLACEMENTS_shape:
  "list_all (\<lambda>(bad, good). length bad = 1 \<and> good = []) REPLACEMENTS"
  by (simp add: REPLACEMENTS_def)

lemma REPLACEMENTS_eq:
  "REPLACEMENTS = map (\<lambda>n. ([of_nat n], [])) ([0..<9] @ [11, 12] @ [14..<32])"
  by (simp add: REPLACEMENTS_def upt_rec)

lemma byte_of_nat_eq: "n < 256 \<Longrightarrow> (b = (of_nat n :: byte)) \<longleftrightarrow> unat b = n"
  by (auto simp: unat_of_nat)

lemma fst_REPLACEMENTS: "[b] \<in> fst ` set REPLACEMENTS \<longleftrightarrow> removed_ctrl (unat b)"
proof -
  define ns :: "nat list" where "ns = [0..<9] @ [11, 12] @ [14..<32]"
  have ns: "set ns = {0..<9} \<union> {11, 12} \<union> {14..<32}"
    unfolding ns_def by (simp only: set_append set_upt list.set) auto
  have "[b] \<in> fst ` set REPLACEMENTS \<longleftrightarrow> (\<exists>n \<in> set ns. b = of_nat n)"
    unfolding REPLACEMENTS_eq ns_def[symmetric] by (auto simp: image_iff)
  also have "\<dots> \<longleftrightarrow> (\<exists>n \<in> set ns. unat b = n)"
    by (intro bex_cong refl byte_of_nat_eq) (auto simp: ns)
  also have "\<dots> \<longleftrightarrow> removed_ctrl (unat b)"
    unfolding removed_ctrl_def ns by auto
  finally show ?thesis .
qed

lemma utf8_decode_encode_cp:
  assumes "c < 0x110000" "\<not> is_surrogate c"
  shows "utf8_decode (utf8_encode_cp c @ rest) = Some c # utf8_decode rest"
proof -
  define r e q f p g where "r = c mod 64" and "e = c div 64" and "q = e mod 64"
    and "f = e div 64" and "p = f mod 64" and "g = f div 64"
  have lin: "c = e * 64 + r" "r < 64" "e = f * 64 + q" "q < 64" "f = g * 64 + p" "p < 64"
    by (simp_all add: r_def e_def q_def f_def p_def g_def)
  have f: "c div 4096 = f" and g: "c div 262144 = g"
    by (simp_all add: f_def e_def g_def div_mult2_eq[symmetric])
  have s: "\<not> (0xD800 \<le> c \<and> c \<le> 0xDFFF)" using assms by (simp add: is_surrogate_def)
  consider "c < 0x80" | "0x80 \<le> c" "c < 0x800" | "0x800 \<le> c" "c < 0x10000"
    | "0x10000 \<le> c" by linarith
  then show ?thesis
  proof cases
    case 1
    then show ?thesis by (simp add: utf8_encode_cp_def)
  next
    case 2
    have enc: "utf8_encode_cp c = [0xC0 + e, 0x80 + r]"
      using 2 by (simp add: utf8_encode_cp_def e_def r_def)
    have "2 \<le> e" "e < 32" "e * 64 + r = c"
      using 2 lin by linarith+
    then show ?thesis using lin(2) unfolding enc by (simp add: is_cont_def)
  next
    case 3
    have enc: "utf8_encode_cp c = [0xE0 + f, 0x80 + q, 0x80 + r]"
      using 3 by (simp add: utf8_encode_cp_def f q_def e_def r_def)
    have "f < 16" "f * 4096 + q * 64 + r = c" "f = 0 \<longrightarrow> 32 \<le> q" "f = 13 \<longrightarrow> q < 32"
      using 3 s lin by linarith+
    then show ?thesis using lin(2,4) unfolding enc by (auto simp add: is_cont_def)
  next
    case 4
    have enc: "utf8_encode_cp c = [0xF0 + g, 0x80 + p, 0x80 + q, 0x80 + r]"
      using 4 by (simp add: utf8_encode_cp_def f g p_def q_def e_def r_def)
    have "g < 5" "g * 262144 + p * 4096 + q * 64 + r = c"
      "g = 0 \<longrightarrow> 16 \<le> p" "g = 4 \<longrightarrow> p < 16"
      using 4 assms(1) lin by linarith+
    then show ?thesis using lin(2,4,6) unfolding enc by (auto simp add: is_cont_def)
  qed
qed

lemma utf8_encode_cp_bytes:
  assumes "c < 0x110000" "b \<in> set (utf8_encode_cp c)"
  shows "b < 256"
proof -
  have "c div 262144 < 5" "c < 0x10000 \<Longrightarrow> c div 4096 < 16" "c < 0x800 \<Longrightarrow> c div 64 < 32"
    using assms(1) by simp_all
  moreover have "c mod 64 < 64" "c div 64 mod 64 < 64" "c div 4096 mod 64 < 64" by simp_all
  ultimately show ?thesis using assms(2)
    by (auto simp: utf8_encode_cp_def simp del: div_less_iff_less_mult split: if_splits)
qed

lemma utf8_encode_cp_high:
  assumes "0x80 \<le> c" "b \<in> set (utf8_encode_cp c)"
  shows "0x80 \<le> b"
  using assms by (auto simp: utf8_encode_cp_def split: if_splits)


lemma hex_digit_range: "d < 16 \<Longrightarrow> 48 \<le> hex_digit d \<and> hex_digit d < 0x80"
  by (simp add: hex_digit_def)

lemma backslashreplace_ascii:
  assumes "b \<in> set (backslashreplace c)"
  shows "0x20 \<le> b \<and> b < 0x80"
proof -
  define h1 h2 h3 h4 where "h1 = hex_digit (c div 4096 mod 16)"
    and "h2 = hex_digit (c div 256 mod 16)" and "h3 = hex_digit (c div 16 mod 16)"
    and "h4 = hex_digit (c mod 16)"
  have h: "48 \<le> h1 \<and> h1 < 0x80" "48 \<le> h2 \<and> h2 < 0x80" "48 \<le> h3 \<and> h3 < 0x80"
    "48 \<le> h4 \<and> h4 < 0x80"
    unfolding h1_def h2_def h3_def h4_def by (rule hex_digit_range, simp)+
  from assms have "b = 92 \<or> b = 117 \<or> b = h1 \<or> b = h2 \<or> b = h3 \<or> b = h4"
    unfolding backslashreplace_def h1_def h2_def h3_def h4_def by simp
  with h show ?thesis by auto
qed

lemma removed_ctrl_low: "removed_ctrl b \<Longrightarrow> b < 0x20"
  by (auto simp: removed_ctrl_def)

lemma utf8_decode_ascii:
  "list_all (\<lambda>b. b < 0x80) as \<Longrightarrow> utf8_decode (as @ r) = map Some as @ utf8_decode r"
  by (induction as) auto

lemma encode_cp_bytes:
  assumes "c < 0x110000" "b \<in> set (encode_cp c)"
  shows "b < 256"
proof (cases "is_surrogate c")
  case True
  with assms(2) backslashreplace_ascii[of b c] show ?thesis by (simp add: encode_cp_def)
next
  case False
  with assms utf8_encode_cp_bytes[of c b] show ?thesis by (simp add: encode_cp_def)
qed

lemma unat_filter_of_nat:
  "list_all (\<lambda>n. n < 256) ns \<Longrightarrow>
   map unat (filter (\<lambda>b. P (unat b)) (map of_nat ns :: bytes)) = filter P ns"
  by (induction ns) (auto simp: unat_of_nat)

lemma decode_filter_encode_cp:
  assumes "c < 0x110000"
  shows "utf8_decode (filter (\<lambda>n. \<not> removed_ctrl n) (encode_cp c) @ r) =
         map Some (filter (\<lambda>n. \<not> removed_ctrl n) (escape_cp c)) @ utf8_decode r"
proof (cases "is_surrogate c")
  case True
  have keep: "filter (\<lambda>n. \<not> removed_ctrl n) (backslashreplace c) = backslashreplace c"
    using backslashreplace_ascii[of _ c] removed_ctrl_low by (fastforce simp: filter_id_conv)
  have "list_all (\<lambda>b. b < 0x80) (backslashreplace c)"
    using backslashreplace_ascii[of _ c] by (simp add: list_all_iff)
  from utf8_decode_ascii[OF this] True keep show ?thesis
    by (simp add: encode_cp_def escape_cp_def)
next
  case False
  show ?thesis
  proof (cases "c < 0x80")
    case True
    with False show ?thesis
      by (simp add: encode_cp_def escape_cp_def utf8_encode_cp_def)
  next
    case hi: False
    then have "\<not> removed_ctrl c" using removed_ctrl_low[of c] by auto
    moreover have "filter (\<lambda>n. \<not> removed_ctrl n) (utf8_encode_cp c) = utf8_encode_cp c"
      using utf8_encode_cp_high[of c] hi removed_ctrl_low by (fastforce simp: filter_id_conv)
    ultimately show ?thesis using False assms
      by (simp add: encode_cp_def escape_cp_def utf8_decode_encode_cp)
  qed
qed

lemma decode_filter_encode:
  "valid_str s \<Longrightarrow>
   utf8_decode (filter (\<lambda>n. \<not> removed_ctrl n) (concat (map encode_cp s))) =
   map Some (filter (\<lambda>n. \<not> removed_ctrl n) (concat (map escape_cp s)))"
  by (induction s) (simp_all add: valid_str_def decode_filter_encode_cp)

lemma sanitize_eq:
  assumes "valid_str s"
  shows "sanitize s = filter (\<lambda>n. \<not> removed_ctrl n) (concat (map escape_cp s))"
proof -
  let ?keep = "\<lambda>n. \<not> removed_ctrl n"
  have small: "list_all (\<lambda>n. n < 256) (concat (map encode_cp s))"
    using assms encode_cp_bytes by (auto simp: list_all_iff valid_str_def)
  have fold: "foldl (\<lambda>fixed (bad, good). replace bad good fixed) (force_bytes s) REPLACEMENTS =
        filter (\<lambda>b. ?keep (unat b)) (force_bytes s)"
    by (simp add: foldl_replace_filter[OF REPLACEMENTS_shape] fst_REPLACEMENTS)
  have "map unat (filter (\<lambda>b. ?keep (unat b)) (force_bytes s)) =
        filter ?keep (concat (map encode_cp s))"
    unfolding force_bytes_def encode_utf8_def
    by (rule unat_filter_of_nat[OF small, of ?keep])
  then have "utf8_decode (map unat (filter (\<lambda>b. ?keep (unat b)) (force_bytes s))) =
        map Some (filter ?keep (concat (map escape_cp s)))"
    by (simp only: decode_filter_encode[OF assms])
  then show ?thesis
    unfolding sanitize_def Let_def fold decode_utf8_replace_def
    by (simp add: comp_def)
qed

lemma escape_cp_props:
  assumes "c < 0x110000" "x \<in> set (escape_cp c)"
  shows "x < 0x110000 \<and> \<not> is_surrogate x"
proof (cases "is_surrogate c")
  case True
  with assms(2) backslashreplace_ascii[of x c] show ?thesis
    by (simp add: escape_cp_def is_surrogate_def)
next
  case False
  with assms show ?thesis by (simp add: escape_cp_def)
qed

lemma escape_id:
  "list_all (\<lambda>c. \<not> is_surrogate c) s \<Longrightarrow> concat (map escape_cp s) = s"
  by (induction s) (simp_all add: escape_cp_def)

lemma sanitize_props:
  assumes "valid_str s"
  shows "valid_str (sanitize s)"
    and "list_all (\<lambda>c. \<not> is_surrogate c) (sanitize s)"
    and "list_all (\<lambda>c. \<not> removed_ctrl c) (sanitize s)"
  using assms escape_cp_props
  by (auto simp: sanitize_eq valid_str_def list_all_iff)


section \<open>Properties of the value codec\<close>

lemma str_nat_digits: "list_all is_digit (str_nat n)"
proof (induction n rule: str_nat.induct)
  case (1 n)
  show ?case
  proof (cases "n < 10")
    case True
    then show ?thesis by (subst str_nat.simps) (simp add: is_digit_def)
  next
    case False
    have "n mod 10 < 10" by simp
    then have "is_digit (48 + n mod 10)" unfolding is_digit_def by linarith
    with 1[OF False] False show ?thesis by (subst str_nat.simps) simp
  qed
qed

lemma str_nat_nonempty: "str_nat n \<noteq> []"
  by (subst str_nat.simps) simp

lemma int_of_digits_snoc: "int_of_digits (ds @ [c]) = int_of_digits ds * 10 + (c - 48)"
  by (simp add: int_of_digits_def)

lemma int_of_digits_str_nat: "int_of_digits (str_nat n) = n"
proof (induction n rule: str_nat.induct)
  case (1 n)
  show ?case
  proof (cases "n < 10")
    case True
    then show ?thesis by (subst str_nat.simps) (simp add: int_of_digits_def)
  next
    case False
    with 1[OF False] show ?thesis
      by (subst str_nat.simps) (simp add: int_of_digits_snoc)
  qed
qed

lemma length_str_nat: "n < 10 ^ Suc k \<Longrightarrow> length (str_nat n) \<le> Suc k"
proof (induction k arbitrary: n)
  case 0
  then show ?case by (subst str_nat.simps) simp
next
  case (Suc k)
  show ?case
  proof (cases "n < 10")
    case True
    then show ?thesis by (subst str_nat.simps) simp
  next
    case False
    from Suc.prems have "n div 10 < 10 ^ Suc k" by (simp add: less_mult_imp_div_less mult.commute)
    from Suc.IH[OF this] False show ?thesis by (subst str_nat.simps) simp
  qed
qed

lemma int_of_digits_zeros: "int_of_digits (replicate k 48 @ ds) = int_of_digits ds"
proof -
  have "foldl (\<lambda>acc c. acc * 10 + (c - 48)) 0 (replicate k 48) = (0::nat)"
    by (induction k) simp_all
  then show ?thesis by (simp add: int_of_digits_def)
qed

lemma pad_props:
  assumes "n < 10 ^ w" "0 < w"
  shows "length (pad w n) = w" "list_all is_digit (pad w n)" "int_of_digits (pad w n) = n"
proof -
  from assms obtain k where w: "w = Suc k" by (cases w) auto
  from length_str_nat[of n k] assms(1) show "length (pad w n) = w"
    by (simp add: pad_def w)
  have "is_digit 48" by (simp add: is_digit_def)
  then show "list_all is_digit (pad w n)"
    using str_nat_digits[of n] by (auto simp: pad_def list_all_iff)
  show "int_of_digits (pad w n) = n"
    by (simp add: pad_def int_of_digits_zeros int_of_digits_str_nat)
qed

lemma decimal_value_digit: "is_digit c \<Longrightarrow> decimal_value c = Some (c - 48)"
proof -
  assume "is_digit c"
  then have c: "48 \<le> c" "c \<le> 57" by (simp_all add: is_digit_def)
  then have "(c - 48) mod 10 = c - 48" by simp
  with c show ?thesis by (simp add: decimal_value_def decimal_ranges_def)
qed

lemma is_decimal_digit: "is_digit c \<Longrightarrow> is_decimal c"
  by (simp add: is_decimal_def decimal_value_digit)

lemma is_decimal_below: "c < 0x660 \<Longrightarrow> is_decimal c \<longleftrightarrow> is_digit c"
  by (simp add: is_decimal_def decimal_value_def decimal_ranges_def is_digit_def)

lemma list_all_decimal: "list_all is_digit ds \<Longrightarrow> list_all is_decimal ds"
  by (simp add: list_all_iff is_decimal_digit)

lemma decimal_int_digits:
  assumes "list_all is_digit ds"
  shows "decimal_int ds = int_of_digits ds"
proof -
  have "foldl (\<lambda>acc c. acc * 10 + (case decimal_value c of None \<Rightarrow> 0 | Some v \<Rightarrow> v)) a ds =
        foldl (\<lambda>acc c. acc * 10 + (c - 48)) a ds" for a
    using assms by (induction ds arbitrary: a) (simp_all add: decimal_value_digit)
  then show ?thesis by (simp add: decimal_int_def int_of_digits_def)
qed

lemma decimal_int_pad:
  assumes "n < 10 ^ w" "0 < w"
  shows "decimal_int (pad w n) = n"
  using decimal_int_digits[OF pad_props(2)[OF assms]] pad_props(3)[OF assms] by simp

lemma take_digits_pad:
  assumes "n < 10 ^ w" "0 < w"
  shows "take_digits w (pad w n @ r) = Some (pad w n, r)"
  using pad_props(1)[OF assms] list_all_decimal[OF pad_props(2)[OF assms]]
  by (simp add: take_digits_def)

lemma take_digits_pad2: "n < 100 \<Longrightarrow> take_digits 2 (pad 2 n @ r) = Some (pad 2 n, r)"
  by (rule take_digits_pad) simp_all

lemma take_digits_pad4: "n < 10000 \<Longrightarrow> take_digits 4 (pad 4 n @ r) = Some (pad 4 n, r)"
  by (rule take_digits_pad) simp_all

lemma digit_valid_xml: "is_digit c \<Longrightarrow> is_valid_xml_char_ordinal c"
  by (simp add: is_digit_def is_valid_xml_char_ordinal_def)

lemma clean_xml_string_id:
  "list_all is_valid_xml_char_ordinal s \<Longrightarrow> clean_xml_string s = s"
  by (simp add: clean_xml_string_def filter_id_conv list_all_iff)

lemma take_digits_pad6: "n < 1000000 \<Longrightarrow> take_digits 6 (pad 6 n @ r) = Some (pad 6 n, r)"
  by (rule take_digits_pad) simp_all

lemma skip_fraction_Z: "skip_fraction [90] = [90]"
  by (simp add: skip_fraction_def)

lemma dropWhile_digits: "list_all is_digit ds \<Longrightarrow> dropWhile is_decimal (ds @ [90]) = [90]"
  by (induction ds) (simp_all add: is_decimal_digit is_decimal_below is_digit_def)

lemma skip_fraction_pad6:
  assumes "us < 1000000"
  shows "skip_fraction (46 # pad 6 us @ [90]) = [90]"
proof -
  have len: "length (pad 6 us) = 6" and dig: "list_all is_digit (pad 6 us)"
    using pad_props(1,2)[of us 6] assms by simp_all
  from len obtain d r where p: "pad 6 us = d # r" by (cases "pad 6 us") auto
  with dig have "is_decimal d" "list_all is_digit r" by (simp_all add: is_decimal_digit)
  then show ?thesis by (simp add: skip_fraction_def p dropWhile_digits)
qed

lemma isoformat_naive:
  "utcoffset dt = None \<Longrightarrow> isoformat 84 dt @ ustr ''Z'' = iso_text dt"
  by (simp add: isoformat_def iso_text_def ustr_def)

lemma valid_ymd_bounds: "valid_ymd y m d \<Longrightarrow> y < 10000 \<and> m < 100 \<and> d < 100"
  by (auto simp: valid_ymd_def days_in_month_def split: if_splits)

lemma valid_hms_bounds: "valid_hms h mi s \<Longrightarrow> h < 100 \<and> mi < 100 \<and> s < 100"
  by (auto simp: valid_hms_def)

lemma DATETIME_REGEX_search_iso:
  assumes "valid_datetime dt"
  shows "DATETIME_REGEX_search (iso_text dt) =
         Some (pad 4 (year dt), pad 2 (month dt), pad 2 (day dt),
               pad 2 (hour dt), pad 2 (minute dt), pad 2 (second dt))"
proof -
  from assms have b: "year dt < 10000" "month dt < 100" "day dt < 100"
    "hour dt < 100" "minute dt < 100" "second dt < 100" "microsecond dt < 1000000"
    using valid_ymd_bounds[of "year dt" "month dt" "day dt"]
      valid_hms_bounds[of "hour dt" "minute dt" "second dt"]
    by (simp_all add: valid_datetime_def)
  have frac: "skip_fraction ((if microsecond dt \<noteq> 0 then 46 # pad 6 (microsecond dt) else []) @ [90]) = [90]"
    using skip_fraction_pad6[OF b(7)] by (simp add: skip_fraction_Z)
  show ?thesis
    unfolding DATETIME_REGEX_search_def iso_text_def
    by (simp add: take_digits_pad4[OF b(1)] take_digits_pad2[OF b(2)] take_digits_pad2[OF b(3)]
        take_digits_pad2[OF b(4)] take_digits_pad2[OF b(5)] take_digits_pad2[OF b(6)]
        take_char_def skip_fraction_Z skip_fraction_pad6[OF b(7)])
qed

lemma iso_text_valid_xml:
  assumes "valid_datetime dt"
  shows "list_all is_valid_xml_char_ordinal (iso_text dt)"
proof -
  have p: "\<And>w n. list_all is_valid_xml_char_ordinal (pad w n)"
    using str_nat_digits digit_valid_xml
    by (auto simp: pad_def list_all_iff is_valid_xml_char_ordinal_def)
  show ?thesis
    by (simp add: iso_text_def p) (simp add: is_valid_xml_char_ordinal_def)
qed

lemma length_iso_text:
  assumes "valid_datetime dt"
  shows "length (iso_text dt) = (if microsecond dt \<noteq> 0 then 27 else 20)"
proof -
  from assms have b: "year dt < 10 ^ 4" "month dt < 10 ^ 2" "day dt < 10 ^ 2"
    "hour dt < 10 ^ 2" "minute dt < 10 ^ 2" "second dt < 10 ^ 2" "microsecond dt < 10 ^ 6"
    using valid_ymd_bounds[of "year dt" "month dt" "day dt"]
      valid_hms_bounds[of "hour dt" "minute dt" "second dt"]
    by (simp_all add: valid_datetime_def)
  show ?thesis
    by (simp add: iso_text_def pad_props(1)[OF b(1)] pad_props(1)[OF b(2)] pad_props(1)[OF b(3)]
        pad_props(1)[OF b(4)] pad_props(1)[OF b(5)] pad_props(1)[OF b(6)] pad_props(1)[OF b(7)])
qed

lemma from_python_naive:
  assumes "valid_datetime dt" "utcoffset dt = None"
  shows "from_python (PDateTime dt) = iso_text dt"
  using assms by (simp add: isoformat_naive clean_xml_string_id iso_text_valid_xml)

lemma to_python_iso_text:
  assumes "valid_datetime dt"
  shows "to_python literal_eval (Single (PStr (iso_text dt))) =
         Inr (PDateTime (dt\<lparr>microsecond := 0, utcoffset := None\<rparr>))"
proof -
  from assms have b: "year dt < 10 ^ 4" "month dt < 10 ^ 2" "day dt < 10 ^ 2"
    "hour dt < 10 ^ 2" "minute dt < 10 ^ 2" "second dt < 10 ^ 2"
    using valid_ymd_bounds[of "year dt" "month dt" "day dt"]
      valid_hms_bounds[of "hour dt" "minute dt" "second dt"]
    by (simp_all add: valid_datetime_def)
  have len: "length (iso_text dt) \<noteq> 4" "length (iso_text dt) \<noteq> 5"
    using length_iso_text[OF assms] by (simp_all split: if_splits)
  have ne: "iso_text dt \<noteq> ustr ''true''" "iso_text dt \<noteq> ustr ''false''"
    using len by (auto simp: ustr_def)
  from assms have v: "1 \<le> year dt" "year dt \<le> 9999" "1 \<le> month dt" "month dt \<le> 12"
    "1 \<le> day dt" "day dt \<le> days_in_month (year dt) (month dt)"
    "hour dt < 24" "minute dt < 60" "second dt < 60"
    by (simp_all add: valid_datetime_def valid_ymd_def valid_hms_def)
  have di: "decimal_int (pad 4 (year dt)) = year dt" "decimal_int (pad 2 (month dt)) = month dt"
    "decimal_int (pad 2 (day dt)) = day dt" "decimal_int (pad 2 (hour dt)) = hour dt"
    "decimal_int (pad 2 (minute dt)) = minute dt" "decimal_int (pad 2 (second dt)) = second dt"
    using b by (simp_all add: decimal_int_pad)
  show ?thesis
    using v by (simp add: to_python_def ne DATETIME_REGEX_search_iso[OF assms] datetime_new_def di)
qed

lemma str_nat_hd: "hd (str_nat n) = 48 \<Longrightarrow> n = 0"
proof (induction n rule: str_nat.induct)
  case (1 n)
  show ?case
  proof (cases "n < 10")
    case True
    with 1(2) show ?thesis by (subst (asm) str_nat.simps) simp
  next
    case False
    with 1(2) have "hd (str_nat (n div 10)) = 48"
      by (subst (asm) str_nat.simps) (simp add: str_nat_nonempty)
    from 1(1)[OF False this] False show ?thesis by simp
  qed
qed

lemma str_nat_no_minus: "45 \<notin> set (str_nat n)"
  using str_nat_digits[of n] by (auto simp: list_all_iff is_digit_def)

lemma int_literal_str_int: "int_literal (str_int n) = Inr (PInt n)"
proof (cases "n < 0")
  case True
  define m where "m = nat (- n)"
  with True have m: "m \<noteq> 0" "n = - int m" by simp_all
  have hd: "hd (str_nat m) \<noteq> 48" using str_nat_hd[of m] m(1) by blast
  from True show ?thesis
    by (simp add: int_literal_def str_int_def m_def[symmetric] str_nat_nonempty str_nat_digits hd
        int_of_digits_str_nat m(2))
next
  case False
  define m where "m = nat n"
  with False have m: "n = int m" by simp
  obtain c r where s: "str_nat m = c # r" using str_nat_nonempty[of m] by (cases "str_nat m") auto
  have c: "c \<noteq> 45" using str_nat_no_minus[of m] s by auto
  have zero: "c = 48 \<longrightarrow> list_all (\<lambda>c. c = 48) (str_nat m)"
  proof
    assume "c = 48"
    with s have "hd (str_nat m) = 48" by simp
    then have "m = 0" by (rule str_nat_hd)
    then show "list_all (\<lambda>c. c = 48) (str_nat m)" by (subst str_nat.simps) simp
  qed
  have dig: "list_all is_digit (c # r)" "int_of_digits (c # r) = m"
    using str_nat_digits[of m] int_of_digits_str_nat[of m] by (simp_all add: s)
  from False zero show ?thesis
    using dig by (simp add: int_literal_def str_int_def m_def[symmetric] s c m)
qed

lemma str_int_chars: "list_all (\<lambda>c. is_digit c \<or> c = 45) (str_int n)"
  using str_nat_digits by (auto simp: str_int_def list_all_iff)

lemma str_int_valid_xml: "list_all is_valid_xml_char_ordinal (str_int n)"
  using str_int_chars[of n]
  by (auto simp: list_all_iff is_digit_def is_valid_xml_char_ordinal_def)

lemma str_int_not_bool: "str_int n \<noteq> ustr ''true''" "str_int n \<noteq> ustr ''false''"
  using str_int_chars[of n] by (auto simp: ustr_def is_digit_def)

lemma DATETIME_REGEX_search_shape:
  assumes "DATETIME_REGEX_search s = Some g"
  shows "\<exists>a b c d r. s = a # b # c # d # 45 # r \<and> is_decimal a"
proof -
  from assms obtain y s1 where 1: "take_digits 4 s = Some (y, s1)"
    by (auto simp: DATETIME_REGEX_search_def split: Option.bind_splits)
  with assms obtain s2 where 2: "take_char 45 s1 = Some s2"
    by (auto simp: DATETIME_REGEX_search_def split: Option.bind_splits)
  from 1 have l: "4 \<le> length s" "list_all is_decimal (take 4 s)" "s1 = drop 4 s"
    by (auto simp: take_digits_def split: if_splits)
  from l(1) obtain a b c d r where s: "s = a # b # c # d # r"
    by (cases s; cases "tl s"; cases "tl (tl s)"; cases "tl (tl (tl s))") auto
  with l 2 show ?thesis by (auto simp: take_char_def split: list.splits if_splits)
qed

lemma DATETIME_REGEX_search_str_int: "DATETIME_REGEX_search (str_int n) = None"
proof (rule ccontr)
  assume "DATETIME_REGEX_search (str_int n) \<noteq> None"
  then obtain g where "DATETIME_REGEX_search (str_int n) = Some g" by auto
  from DATETIME_REGEX_search_shape[OF this]
  obtain a b c d r where s: "str_int n = a # b # c # d # 45 # r" and a: "is_decimal a" by blast
  show False
  proof (cases "n < 0")
    case True
    with s a show False by (simp add: str_int_def is_decimal_below is_digit_def)
  next
    case False
    with s have "45 \<in> set (str_nat (nat n))" by (simp add: str_int_def)
    with str_nat_no_minus show False by blast
  qed
qed

lemma to_python_str_int:
  assumes "literal_eval (str_int n) = Inr (PInt n)"
  shows "to_python literal_eval (Single (PStr (from_python (PInt n)))) = Inr (PInt n)"
  using assms
  by (simp add: to_python_def clean_xml_string_id str_int_valid_xml str_int_not_bool
      DATETIME_REGEX_search_str_int)

lemma to_python_bool:
  "to_python literal_eval (Single (PStr (from_python (PBool b)))) = Inr (PBool b)"
proof -
  have "clean_xml_string (ustr ''true'') = ustr ''true''"
    "clean_xml_string (ustr ''false'') = ustr ''false''"
    by (simp_all add: clean_xml_string_def ustr_def is_valid_xml_char_ordinal_def)
  moreover have "ustr ''false'' \<noteq> ustr ''true''" by (simp add: ustr_def)
  ultimately show ?thesis by (cases b) (simp_all add: to_python_def)
qed


lemma DATETIME_REGEX_search_T:
  assumes "DATETIME_REGEX_search s = Some g"
  shows "84 \<in> set s"
proof -
  from assms obtain y s1 s2 mo s3 s4 d s5 s6 where
    p: "take_digits 4 s = Some (y, s1)" "take_char 45 s1 = Some s2"
       "take_digits 2 s2 = Some (mo, s3)" "take_char 45 s3 = Some s4"
       "take_digits 2 s4 = Some (d, s5)" "take_char 84 s5 = Some s6"
    by (auto simp: DATETIME_REGEX_search_def split: Option.bind_splits)
  from p(6) have "84 \<in> set s5" by (auto simp: take_char_def split: list.splits if_splits)
  moreover from p(5) have "set s5 \<subseteq> set s4"
    by (auto simp: take_digits_def split: if_splits dest: in_set_dropD)
  moreover from p(4) have "set s4 \<subseteq> set s3"
    by (auto simp: take_char_def split: list.splits if_splits)
  moreover from p(3) have "set s3 \<subseteq> set s2"
    by (auto simp: take_digits_def split: if_splits dest: in_set_dropD)
  moreover from p(2) have "set s2 \<subseteq> set s1"
    by (auto simp: take_char_def split: list.splits if_splits)
  moreover from p(1) have "set s1 \<subseteq> set s"
    by (auto simp: take_digits_def split: if_splits dest: in_set_dropD)
  ultimately show ?thesis by blast
qed

lemma float_repr_shape_chars:
  "float_repr_shape s \<Longrightarrow> c \<in> set s \<Longrightarrow> is_digit c \<or> c = 43 \<or> c = 45 \<or> c = 46 \<or> c = 101"
  by (auto simp: float_repr_shape_def list_all_iff)

lemma float_repr_valid_xml:
  "float_repr_shape s \<Longrightarrow> list_all is_valid_xml_char_ordinal s"
  by (auto simp: list_all_iff is_digit_def is_valid_xml_char_ordinal_def
      dest!: float_repr_shape_chars)

lemma float_repr_not_bool:
  "float_repr_shape s \<Longrightarrow> s \<noteq> ustr ''true''" "float_repr_shape s \<Longrightarrow> s \<noteq> ustr ''false''"
  by (auto simp: float_repr_shape_def ustr_def is_digit_def)

lemma DATETIME_REGEX_search_float:
  assumes "float_repr_shape s"
  shows "DATETIME_REGEX_search s = None"
proof (rule ccontr)
  assume "DATETIME_REGEX_search s \<noteq> None"
  then obtain g where "DATETIME_REGEX_search s = Some g" by auto
  then have "84 \<in> set s" by (rule DATETIME_REGEX_search_T)
  with float_repr_shape_chars[OF assms, of 84] show False by (simp add: is_digit_def)
qed

lemma to_python_float:
  assumes "float_repr_shape s" and "literal_eval s = Inr (PFloat (Finite s))"
  shows "to_python literal_eval (Single (PStr (from_python (PFloat (Finite s))))) =
         Inr (PFloat (Finite s))"
  using assms
  by (simp add: to_python_def clean_xml_string_id float_repr_valid_xml float_repr_not_bool
      DATETIME_REGEX_search_float)

lemma sample_literal_eval_str_int: "sample_literal_eval (str_int n) = Inr (PInt n)"
proof -
  have "str_int n \<noteq> ustr ''1.5''" "str_int n \<noteq> ustr ''inf''" "str_int n \<noteq> ustr ''-inf''"
    "str_int n \<noteq> ustr ''nan''"
    using str_int_chars[of n] by (auto simp: ustr_def is_digit_def)
  then show ?thesis by (simp add: sample_literal_eval_def int_literal_str_int)
qed

lemma to_python_nonfinite:
  assumes "x \<in> {PosInf, NegInf, NaN}" and "literal_eval (float_text x) = Inl (ValueError m)"
  shows "to_python literal_eval (Single (PStr (from_python (PFloat x)))) =
         Inr (PStr (float_text x))"
proof -
  define t where "t = float_text x"
  from assms(1) have t: "t = ustr ''inf'' \<or> t = ustr ''-inf'' \<or> t = ustr ''nan''"
    by (auto simp: t_def)
  then have c: "clean_xml_string t = t"
    by (auto simp: clean_xml_string_def ustr_def is_valid_xml_char_ordinal_def)
  from t have b: "t \<noteq> ustr ''true''" "t \<noteq> ustr ''false''"
    by (auto simp: ustr_def)
  from t have r: "DATETIME_REGEX_search t = None"
    by (auto simp: DATETIME_REGEX_search_def take_digits_def ustr_def is_decimal_below
        is_digit_def)
  from assms(2) have l: "literal_eval t = Inl (ValueError m)" by (simp add: t_def)
  have "to_python literal_eval (Single (PStr (clean_xml_string t))) = Inr (PStr t)"
    by (simp add: to_python_def c b r l is_ValueError_def)
  then show ?thesis by (simp add: t_def)
qed

lemma digit_shape_append [simp]: "digit_shape (a @ b) = digit_shape a @ digit_shape b"
  by (simp add: digit_shape_def)

lemma digit_shape_Cons [simp]:
  "digit_shape (c # s) = (if is_digit c then 100 else c) # digit_shape s" "digit_shape [] = []"
  by (simp_all add: digit_shape_def)

lemma digit_shape_pad:
  assumes "n < 10 ^ w" "0 < w"
  shows "digit_shape (pad w n) = replicate w 100"
proof -
  from pad_props(1,2)[OF assms] have "length (pad w n) = w" "\<forall>c \<in> set (pad w n). is_digit c"
    by (simp_all add: list_all_iff)
  then show ?thesis
    by (auto simp: digit_shape_def list_eq_iff_nth_eq)
qed

lemma replicate_246:
  "replicate 2 x = [x, x]" "replicate 4 x = [x, x, x, x]" "replicate 6 x = [x, x, x, x, x, x]"
  by (simp_all add: eval_nat_numeral)

lemma date_text_valid_xml:
  "list_all is_valid_xml_char_ordinal (date_isoformat d @ ustr ''T00:00:00Z'')"
proof -
  have p: "\<And>w n. list_all is_valid_xml_char_ordinal (pad w n)"
    using str_nat_digits digit_valid_xml
    by (auto simp: pad_def list_all_iff is_valid_xml_char_ordinal_def)
  show ?thesis
    by (simp add: date_isoformat_def p) (simp add: ustr_def is_valid_xml_char_ordinal_def)
qed


section \<open>Properties of the document builder\<close>

lemma map_of_dict_set:
  "map_of (dict_set kvs k v) k' = (if k' = k then Some v else map_of kvs k')"
  by (induction kvs) auto

lemma field_attrs_name:
  "map_of (field_attrs key boost fieldUpdates) (ustr ''name'') = Some (AText key)"
proof -
  have "ustr ''name'' \<noteq> ustr ''update''" "ustr ''name'' \<noteq> ustr ''boost''"
    by (simp_all add: ustr_def)
  then show ?thesis
    by (auto simp: field_attrs_def Let_def map_of_dict_set split: option.splits)
qed

lemma build_fields_eq:
  "build_fields key boost fieldUpdates vs =
   map (\<lambda>b. Element (ustr ''field'') (field_attrs key boost fieldUpdates) (Some (from_python b)) [])
     (filter (\<lambda>b. \<not> is_null_value b) vs)"
  by (induction vs) simp_all

lemma children_build_doc_loop:
  "children (build_doc_loop boost fieldUpdates doc_elem items) =
   children doc_elem @
   concat (map (\<lambda>(key, val). if key = ustr ''boost'' then []
                 else build_fields key boost fieldUpdates (values_of val)) items)"
  by (induction items arbitrary: doc_elem) auto

lemma filter_build_fields:
  "filter (\<lambda>e. tag e = ustr ''field'' \<and> map_of (attrib e) (ustr ''name'') = Some (AText key))
     (build_fields key' boost fieldUpdates vs) =
   (if key' = key then build_fields key' boost fieldUpdates vs else [])"
  by (induction vs) (auto simp: field_attrs_name)

lemma fields_named_build_doc:
  "fields_named key (build_doc doc boost fieldUpdates) =
   concat (map (\<lambda>(key', val). if key' = key \<and> key' \<noteq> ustr ''boost''
                 then build_fields key boost fieldUpdates (values_of val) else []) doc)"
proof -
  have "filter (\<lambda>e. tag e = ustr ''field'' \<and> map_of (attrib e) (ustr ''name'') = Some (AText key))
          (concat (map (\<lambda>(key, val). if key = ustr ''boost'' then []
                 else build_fields key boost fieldUpdates (values_of val)) doc)) =
        concat (map (\<lambda>(key', val). if key' = key \<and> key' \<noteq> ustr ''boost''
                 then build_fields key boost fieldUpdates (values_of val) else []) doc)"
    by (induction doc) (auto simp: filter_build_fields)
  then show ?thesis
    by (simp add: fields_named_def build_doc_def children_build_doc_loop)
qed

lemma concat_distinct_key:
  assumes "distinct (map fst doc)" "(key, val) \<in> set doc"
  shows "concat (map (\<lambda>(key', v). if key' = key \<and> P key' then f v else []) doc) =
         (if P key then f val else [])"
  using assms
proof (induction doc)
  case Nil
  then show ?case by simp
next
  case (Cons kv doc)
  obtain k v where kv: "kv = (k, v)" by (cases kv)
  show ?case
  proof (cases "k = key")
    case True
    with Cons.prems kv have v: "v = val" and notin: "key \<notin> fst ` set doc"
      by (auto simp: image_iff)
    from notin have "concat (map (\<lambda>(key', v). if key' = key \<and> P key' then f v else []) doc) = []"
      by (induction doc) (auto simp: image_iff)
    with True v kv show ?thesis by simp
  next
    case False
    with Cons kv show ?thesis by auto
  qed
qed

lemma fields_named_field:
  assumes "distinct (map fst doc)" "(key, val) \<in> set doc" "key \<noteq> ustr ''boost''"
  shows "fields_named key (build_doc doc boost fieldUpdates) =
         build_fields key boost fieldUpdates (values_of val)"
  using concat_distinct_key[OF assms(1,2), of "\<lambda>k. k \<noteq> ustr ''boost''"
      "\<lambda>v. build_fields key boost fieldUpdates (values_of v)"] assms(3)
  by (simp add: fields_named_build_doc)

lemma is_null_value_iff: "is_null_value v \<longleftrightarrow> v = PNone \<or> v = PStr []"
  by (cases v) (simp_all add: is_null_value_def)

lemma length_filter_not:
  "length (filter (\<lambda>b. \<not> P b) vs) = length vs - length (filter P vs)"
  using sum_length_filter_compl[of P vs] by simp


section \<open>Properties of the request dispatcher\<close>

lemma encode_cp_ascii: "c < 128 \<Longrightarrow> encode_cp c = [c]"
  by (simp add: encode_cp_def is_surrogate_def utf8_encode_cp_def)

lemma force_bytes_ascii:
  "list_all (\<lambda>c. c < 128) s \<Longrightarrow> force_bytes s = map of_nat s"
  by (induction s) (simp_all add: force_bytes_def encode_utf8_def encode_cp_ascii)

lemma upper_get_post: "upper (ustr ''get'') = ustr ''GET''" "upper (ustr ''post'') = ustr ''POST''"
  by (simp_all add: upper_def ustr_def)

lemma snd_send_request:
  "snd (send_request self meth path body hdrs None net) =
     net @ [\<lparr>req_url = create_full_url self path, req_method = upper meth,
              req_headers = (case hdrs of None \<Rightarrow> [] | Some h \<Rightarrow> h),
              req_body = map_option force_bytes body,
              request_timeout = solr_timeout self\<rparr>]"
  by (cases body) (simp_all add: send_request_def Let_def split: sum.splits)


lemma length_force_bytes_ascii:
  "list_all (\<lambda>c. c < 128) s \<Longrightarrow> length (force_bytes s) = length s"
  by (simp add: force_bytes_ascii)


section \<open>Properties of the term suggestions\<close>

lemma terms_of_result_flat:
  "terms_of_result (JDict [(ustr ''terms'',
      JList [JStr (ustr ''color''),
             JList [JStr (ustr ''red''), JInt 5, JStr (ustr ''blue''), JInt 3]])]) = Inr [(JStr (ustr ''color''),
     [(JStr (ustr ''red''), JInt 5), (JStr (ustr ''blue''), JInt 3)])]"
  by (simp add: terms_of_result_def)

lemma terms_of_result_mapping:
  "terms_of_result (JDict [(ustr ''terms'',
      JDict [(ustr ''color'',
             JList [JStr (ustr ''red''), JInt 5, JStr (ustr ''blue''), JInt 3])])]) = Inr [(JStr (ustr ''color''),
     [(JStr (ustr ''red''), JInt 5), (JStr (ustr ''blue''), JInt 3)])]"
  by (simp add: terms_of_result_def)


lemma paired_Cons2: "paired (x # y # xs) = (x, y) # paired xs"
proof -
  have "[0..<Suc (length xs div 2)] = 0 # map Suc [0..<length xs div 2]"
    by (simp only: upt_conv_Cons[OF zero_less_Suc] map_Suc_upt)
  then show ?thesis by (simp add: paired_def comp_def)
qed

lemma paired_Nil: "paired [] = []"
  by (simp add: paired_def)

lemma pop_pairs_even: "even (length xs) \<Longrightarrow> pop_pairs xs = Inr (paired xs)"
  by (induction xs rule: pop_pairs.induct) (simp_all add: paired_Nil paired_Cons2)

lemma slices_flat:
  "zip (slice_even (concat (map (\<lambda>(k, xs). [JStr k, JList xs]) kvs)))
       (slice_odd (concat (map (\<lambda>(k, xs). [JStr k, JList xs]) kvs))) =
   map (\<lambda>(k, xs). (JStr k, JList xs)) kvs"
  by (induction kvs) auto

lemma key_eq_JStr: "key_eq (JStr a) (JStr b) \<longleftrightarrow> a = b"
  by (simp add: key_eq_def)

lemma jdict_set_fresh:
  "k \<notin> fst ` set acc \<Longrightarrow>
   jdict_set (map (\<lambda>(k, v). (JStr k, f v)) acc) (JStr k) w =
   map (\<lambda>(k, v). (JStr k, f v)) acc @ [(JStr k, w)]"
  by (induction acc) (auto simp: key_eq_JStr)

lemma dict_of_pairs_strs:
  "distinct (map fst (acc @ kvs)) \<Longrightarrow>
   dict_of_pairs (map (\<lambda>(k, xs). (JStr k, JList xs)) acc) (map (\<lambda>(k, xs). (JStr k, JList xs)) kvs) =
   Inr (map (\<lambda>(k, xs). (JStr k, JList xs)) (acc @ kvs))"
proof (induction kvs arbitrary: acc)
  case Nil
  then show ?case by simp
next
  case (Cons kv kvs)
  obtain k xs where kv: "kv = (k, xs)" by (cases kv)
  from Cons.prems kv have fresh: "k \<notin> fst ` set acc" and d: "distinct (map fst ((acc @ [(k, xs)]) @ kvs))"
    by auto
  from Cons.IH[OF d] jdict_set_fresh[OF fresh, of JList "JList xs"] show ?case
    by (simp add: kv)
qed

lemma collect_terms_strs:
  "distinct (map fst (acc @ kvs)) \<Longrightarrow> list_all (\<lambda>(k, xs). even (length xs)) kvs \<Longrightarrow>
   collect_terms (map (\<lambda>(k, xs). (JStr k, paired xs)) acc) (map (\<lambda>(k, xs). (JStr k, JList xs)) kvs) =
   Inr (map (\<lambda>(k, xs). (JStr k, paired xs)) (acc @ kvs))"
proof (induction kvs arbitrary: acc)
  case Nil
  then show ?case by simp
next
  case (Cons kv kvs)
  obtain k xs where kv: "kv = (k, xs)" by (cases kv)
  from Cons.prems kv have fresh: "k \<notin> fst ` set acc" and d: "distinct (map fst ((acc @ [(k, xs)]) @ kvs))"
    and e: "even (length xs)" "list_all (\<lambda>(k, xs). even (length xs)) kvs"
    by auto
  from Cons.IH[OF d e(2)] jdict_set_fresh[OF fresh, of paired "paired xs"] show ?case
    by (simp add: kv pop_pairs_even[OF e(1)])
qed

lemma mapping_items:
  "map (\<lambda>(k, v). (JStr k, v)) (map (\<lambda>(k, xs). (k, JList xs)) kvs) =
   map (\<lambda>(k, xs). (JStr k, JList xs)) kvs"
  by (induction kvs) auto

lemma terms_of_result_shapes:
  assumes "distinct (map fst kvs)"
  shows "terms_of_result (flat_terms kvs) = terms_of_result (mapping_terms kvs)"
  using dict_of_pairs_strs[of "[]" kvs] assms
  by (simp add: terms_of_result_def flat_terms_def mapping_terms_def slices_flat mapping_items
      del: map_map)

lemma terms_of_result_mapping_terms:
  assumes "distinct (map fst kvs)" "list_all (\<lambda>(k, xs). even (length xs)) kvs"
  shows "terms_of_result (mapping_terms kvs) = Inr (map (\<lambda>(k, xs). (JStr k, paired xs)) kvs)"
proof -
  from collect_terms_strs[of "[]" kvs] assms show ?thesis
    by (simp add: terms_of_result_def mapping_terms_def mapping_items del: map_map)
qed

lemma strict_parse_fail:
  assumes "fromstring s = Inl e" and "e = ParseError \<or> e = ExpatError"
  shows "strict_parse fromstring s = Inr (None, [], False)"
  using assms by (auto simp: strict_parse_def)

lemma strict_parse_returns:
  assumes "\<forall>e. fromstring s = Inl e \<longrightarrow> e = ParseError \<or> e = ExpatError"
    and "\<forall>t n. fromstring s = Inr t \<and>
           (find_path (named (ustr ''lst'') (ustr ''error'')) (named (ustr ''str'') (ustr ''msg'')) t = Some n \<or>
            find_path (named (ustr ''lst'') (ustr ''error'')) (named (ustr ''str'') (ustr ''trace'')) t = Some n)
           \<longrightarrow> etext n \<noteq> None"
  shows "\<exists>r f b. strict_parse fromstring s = Inr (r, f, b)"
proof (cases "fromstring s")
  case (Inl e)
  with assms(1) have "e = ParseError \<or> e = ExpatError" by blast
  from strict_parse_fail[of fromstring s e, OF Inl this] show ?thesis by blast
next
  case (Inr t)
  let ?m = "find_path (named (ustr ''lst'') (ustr ''error'')) (named (ustr ''str'') (ustr ''msg'')) t"
  let ?tb = "find_path (named (ustr ''lst'') (ustr ''error'')) (named (ustr ''str'') (ustr ''trace'')) t"
  have m: "\<And>n. ?m = Some n \<Longrightarrow> \<exists>x. etext n = Some x"
    using assms(2) Inr by blast
  have tb: "\<And>n. ?tb = Some n \<Longrightarrow> \<exists>x. etext n = Some x"
    using assms(2) Inr by blast
  show ?thesis
  proof (cases ?m)
    case None
    show ?thesis
    proof (cases ?tb)
      case N2: None
      with None Inr show ?thesis by (auto simp: strict_parse_def)
    next
      case (Some n)
      from tb[OF Some] obtain x where "etext n = Some x" by blast
      with None Some Inr show ?thesis by (auto simp: strict_parse_def text_strip_def)
    qed
  next
    case (Some k)
    from m[OF Some] obtain y where y: "etext k = Some y" by blast
    show ?thesis
    proof (cases ?tb)
      case None
      with Some y Inr show ?thesis by (auto simp: strict_parse_def text_strip_def)
    next
      case S2: (Some n)
      from tb[OF S2] obtain x where "etext n = Some x" by blast
      with Some S2 y Inr show ?thesis by (auto simp: strict_parse_def text_strip_def)
    qed
  qed
qed

lemma scrape_response_decoded:
  assumes "response = Text s \<or> (response = Bytes b \<and> decode_utf8_strict b = Some s)"
  shows "scrape_response fromstring tostring headers response =
         scrape_response fromstring tostring headers (Text s)"
  using assms by (auto simp: scrape_response_def)

lemma scrape_response_total:
  assumes "\<forall>e. fromstring s = Inl e \<longrightarrow> e = ParseError \<or> e = ExpatError"
    and "\<forall>t n. fromstring s = Inr t \<and>
           (find_path (named (ustr ''lst'') (ustr ''error'')) (named (ustr ''str'') (ustr ''msg'')) t = Some n \<or>
            find_path (named (ustr ''lst'') (ustr ''error'')) (named (ustr ''str'') (ustr ''trace'')) t = Some n)
           \<longrightarrow> etext n \<noteq> None"
  shows "\<exists>reason detail. scrape_response fromstring tostring headers (Text s) = Inr (reason, detail)"
proof -
  from strict_parse_returns[of fromstring s, OF assms] obtain r f b where
    sp: "strict_parse fromstring s = Inr (r, f, b)" by blast
  have fs: "\<And>e. fromstring s = Inl e \<Longrightarrow> is_SyntaxError e \<or> e = ExpatError"
    using assms(1) by (auto simp: is_SyntaxError_def)
  show ?thesis
  proof (cases "fromstring s")
    case (Inl e)
    from fs[OF Inl] Inl sp show ?thesis
      by (cases b) (auto simp: scrape_response_def Let_def split: option.splits)
  next
    case (Inr t)
    with sp show ?thesis
      by (cases b) (auto simp: scrape_response_def Let_def split: option.splits)
  qed
qed

lemma scrape_response_worst:
  assumes "fromstring s = Inl e" and "e = ParseError \<or> e = ExpatError"
    and "h1_search s = None"
  shows "scrape_response fromstring tostring headers (Text s) =
         Inr (None, strip (replace (ustr ''<br />'') [] (replace (ustr ''<br/>'') []
                      (replace [13] [] (replace [10] [] s)))))"
proof -
  have "is_SyntaxError e \<or> e = ExpatError" using assms(2) by (auto simp: is_SyntaxError_def)
  with assms(1,3) strict_parse_fail[of fromstring s e, OF assms(1,2)] show ?thesis
    by (auto simp: scrape_response_def Let_def)
qed

section \<open>The claims\<close>
subsection \<open>C3: decoding an encoded value\<close>

text \<open>
  C3.  For every boolean, every integer, every finite float and every timezone-naive
  date-time \<open>v\<close>, \<^verbatim>\<open>_to_python(_from_python(v))\<close> is \<open>v\<close>, a date-time being cut to whole
  seconds.  The standard library's \<^verbatim>\<open>ast.literal_eval\<close> is a parameter.  It is assumed
  to evaluate the decimal text of an integer to that integer.  A finite float is given by
  the text \<open>s\<close> that \<^verbatim>\<open>repr\<close> writes for it: that text is made of digits, signs, a point
  and an exponent mark, and \<^verbatim>\<open>ast.literal_eval\<close> reads it back as the same float.  The floats \<^verbatim>\<open>inf\<close>,
  \<^verbatim>\<open>-inf\<close> and \<^verbatim>\<open>nan\<close> are decoded to their text when \<^verbatim>\<open>ast.literal_eval\<close> raises
  \<^verbatim>\<open>ValueError\<close> on it.
\<close>

theorem to_python_from_python:
  assumes "\<forall>n. literal_eval (str_int n) = Inr (PInt n)"
  shows "to_python literal_eval (Single (PStr (from_python (PBool b)))) = Inr (PBool b) \<and>
         to_python literal_eval (Single (PStr (from_python (PInt n)))) = Inr (PInt n) \<and>
         (float_repr_shape s \<and> literal_eval s = Inr (PFloat (Finite s)) \<longrightarrow>
            to_python literal_eval (Single (PStr (from_python (PFloat (Finite s))))) =
            Inr (PFloat (Finite s))) \<and>
         (x \<in> {PosInf, NegInf, NaN} \<and> literal_eval (float_text x) = Inl (ValueError m) \<longrightarrow>
            to_python literal_eval (Single (PStr (from_python (PFloat x)))) =
            Inr (PStr (float_text x))) \<and>
         (valid_datetime dt \<and> utcoffset dt = None \<longrightarrow>
            to_python literal_eval (Single (PStr (from_python (PDateTime dt)))) =
            Inr (PDateTime (dt\<lparr>microsecond := 0\<rparr>)))"
proof (intro conjI impI)
  show "to_python literal_eval (Single (PStr (from_python (PBool b)))) = Inr (PBool b)"
    by (rule to_python_bool)
  show "to_python literal_eval (Single (PStr (from_python (PInt n)))) = Inr (PInt n)"
    using assms by (intro to_python_str_int) simp
next
  assume "float_repr_shape s \<and> literal_eval s = Inr (PFloat (Finite s))"
  then show "to_python literal_eval (Single (PStr (from_python (PFloat (Finite s))))) =
      Inr (PFloat (Finite s))"
    by (intro to_python_float) simp_all
next
  assume "x \<in> {PosInf, NegInf, NaN} \<and> literal_eval (float_text x) = Inl (ValueError m)"
  then show "to_python literal_eval (Single (PStr (from_python (PFloat x)))) =
      Inr (PStr (float_text x))"
    by (intro to_python_nonfinite[where m = m]) simp_all
next
  assume a: "valid_datetime dt \<and> utcoffset dt = None"
  then have "dt\<lparr>microsecond := 0, utcoffset := None\<rparr> = dt\<lparr>microsecond := 0\<rparr>"
    by simp
  moreover from a have "from_python (PDateTime dt) = iso_text dt"
    by (intro from_python_naive) simp_all
  moreover from a have "to_python literal_eval (Single (PStr (iso_text dt))) =
      Inr (PDateTime (dt\<lparr>microsecond := 0, utcoffset := None\<rparr>))"
    by (intro to_python_iso_text) simp
  ultimately show "to_python literal_eval (Single (PStr (from_python (PDateTime dt)))) =
      Inr (PDateTime (dt\<lparr>microsecond := 0\<rparr>))"
    by (simp only:)
qed

text \<open>
  The theorem with the sample evaluator, at \<^verbatim>\<open>True\<close>, \<^verbatim>\<open>-42\<close>, \<^verbatim>\<open>1.5\<close>, \<^verbatim>\<open>nan\<close>
  and 2020-02-29 03:04:05.600000.
\<close>

theorem to_python_from_python_witness:
  "(\<forall>n. sample_literal_eval (str_int n) = Inr (PInt n)) \<and>
   float_repr_shape (ustr ''1.5'') \<and>
   sample_literal_eval (ustr ''1.5'') = Inr (PFloat (Finite (ustr ''1.5''))) \<and>
   sample_literal_eval (float_text NaN) = Inl (ValueError (ustr ''malformed node or string'')) \<and>
   valid_datetime \<lparr>year = 2020, month = 2, day = 29, hour = 3, minute = 4, second = 5,
                   microsecond = 600000, utcoffset = None\<rparr> \<and>
   to_python sample_literal_eval (Single (PStr (from_python (PBool True)))) = Inr (PBool True) \<and>
   to_python sample_literal_eval (Single (PStr (from_python (PInt (- 42))))) = Inr (PInt (- 42)) \<and>
   to_python sample_literal_eval (Single (PStr (from_python (PFloat (Finite (ustr ''1.5'')))))) =
     Inr (PFloat (Finite (ustr ''1.5''))) \<and>
   to_python sample_literal_eval (Single (PStr (from_python (PFloat NaN)))) =
     Inr (PStr (ustr ''nan'')) \<and>
   to_python sample_literal_eval (Single (PStr (from_python (PDateTime
       \<lparr>year = 2020, month = 2, day = 29, hour = 3, minute = 4, second = 5,
        microsecond = 600000, utcoffset = None\<rparr>)))) =
     Inr (PDateTime \<lparr>year = 2020, month = 2, day = 29, hour = 3, minute = 4, second = 5,
                     microsecond = 0, utcoffset = None\<rparr>)"
proof -
  let ?dt = "\<lparr>year = 2020, month = 2, day = 29, hour = 3, minute = 4, second = 5,
                   microsecond = 600000, utcoffset = None\<rparr>"
  have l: "\<forall>n. sample_literal_eval (str_int n) = Inr (PInt n)"
    by (simp add: sample_literal_eval_str_int)
  have v: "valid_datetime ?dt"
    by (simp add: valid_datetime_def valid_ymd_def valid_hms_def days_in_month_def is_leap_def)
  have s: "float_repr_shape (ustr ''1.5'')"
    by (simp add: float_repr_shape_def ustr_def is_digit_def)
  have e: "sample_literal_eval (ustr ''1.5'') = Inr (PFloat (Finite (ustr ''1.5'')))"
    by (simp add: sample_literal_eval_def)
  have n: "sample_literal_eval (float_text NaN) = Inl (ValueError (ustr ''malformed node or string''))"
    by (simp add: sample_literal_eval_def ustr_def)
  have "to_python sample_literal_eval (Single (PStr (from_python (PBool True)))) = Inr (PBool True) \<and>
      to_python sample_literal_eval (Single (PStr (from_python (PInt (- 42))))) = Inr (PInt (- 42)) \<and>
      (float_repr_shape (ustr ''1.5'') \<and>
       sample_literal_eval (ustr ''1.5'') = Inr (PFloat (Finite (ustr ''1.5''))) \<longrightarrow>
         to_python sample_literal_eval (Single (PStr (from_python (PFloat (Finite (ustr ''1.5'')))))) =
         Inr (PFloat (Finite (ustr ''1.5'')))) \<and>
      (NaN \<in> {PosInf, NegInf, NaN} \<and>
       sample_literal_eval (float_text NaN) = Inl (ValueError (ustr ''malformed node or string'')) \<longrightarrow>
         to_python sample_literal_eval (Single (PStr (from_python (PFloat NaN)))) =
         Inr (PStr (float_text NaN))) \<and>
      (valid_datetime ?dt \<and> utcoffset ?dt = None \<longrightarrow>
         to_python sample_literal_eval (Single (PStr (from_python (PDateTime ?dt)))) =
         Inr (PDateTime (?dt\<lparr>microsecond := 0\<rparr>)))"
    by (rule to_python_from_python[OF l])
  with l v s e n show ?thesis by simp
qed

text \<open>
  The float \<^verbatim>\<open>inf\<close> is encoded as the text \<^verbatim>\<open>inf\<close>.  That text is no Python literal:
  \<^verbatim>\<open>ast.literal_eval\<close> raises \<^verbatim>\<open>ValueError\<close>, which \<^verbatim>\<open>_to_python\<close> catches, and the
  text itself is returned, not the float.
\<close>

theorem to_python_inf_counterexample:
  "from_python (PFloat PosInf) = ustr ''inf'' \<and>
   sample_literal_eval (ustr ''inf'') = Inl (ValueError (ustr ''malformed node or string'')) \<and>
   to_python sample_literal_eval (Single (PStr (from_python (PFloat PosInf)))) =
     Inr (PStr (ustr ''inf'')) \<and>
   to_python sample_literal_eval (Single (PStr (from_python (PFloat PosInf)))) \<noteq>
     Inr (PFloat PosInf)"
proof -
  have f: "from_python (PFloat PosInf) = ustr ''inf''"
    by (simp add: clean_xml_string_def ustr_def is_valid_xml_char_ordinal_def)
  have l: "sample_literal_eval (ustr ''inf'') = Inl (ValueError (ustr ''malformed node or string''))"
    by (simp add: sample_literal_eval_def ustr_def)
  have r: "DATETIME_REGEX_search (ustr ''inf'') = None"
    by (simp add: DATETIME_REGEX_search_def take_digits_def ustr_def)
  have t: "to_python sample_literal_eval (Single (PStr (ustr ''inf''))) = Inr (PStr (ustr ''inf''))"
  proof -
    have "ustr ''inf'' \<noteq> ustr ''true''" "ustr ''inf'' \<noteq> ustr ''false''"
      by (simp_all add: ustr_def)
    then show ?thesis by (simp add: to_python_def r l is_ValueError_def)
  qed
  from f l t show ?thesis by (simp only: simp_thms sum.inject pyval.distinct not_False_eq_True)
qed

text \<open>
  An aware date-time is not recovered either.  2020-01-02 03:04:05 UTC is encoded as
  \<^verbatim>\<open>2020-01-02T03:04:05+00:00Z\<close>, the UTC offset standing before the \<^verbatim>\<open>Z\<close>; the
  module's own pattern does not match that text and it is no Python literal, so it is
  decoded to the text.
\<close>

lemma to_python_aware_datetime_text:
  "valid_datetime \<lparr>year = 2020, month = 1, day = 2, hour = 3, minute = 4, second = 5,
                   microsecond = 0, utcoffset = Some 0\<rparr> \<and>
   from_python (PDateTime \<lparr>year = 2020, month = 1, day = 2, hour = 3, minute = 4, second = 5,
                            microsecond = 0, utcoffset = Some 0\<rparr>) =
     ustr ''2020-01-02T03:04:05+00:00Z'' \<and>
   to_python sample_literal_eval (Single (PStr (from_python (PDateTime
       \<lparr>year = 2020, month = 1, day = 2, hour = 3, minute = 4, second = 5,
        microsecond = 0, utcoffset = Some 0\<rparr>)))) =
     Inr (PStr (ustr ''2020-01-02T03:04:05+00:00Z''))"
proof -
  let ?dt = "\<lparr>year = 2020, month = 1, day = 2, hour = 3, minute = 4, second = 5,
                   microsecond = 0, utcoffset = Some (0::int)\<rparr>"
  have v: "valid_datetime ?dt"
    by (simp add: valid_datetime_def valid_ymd_def valid_hms_def days_in_month_def is_leap_def)
  have f: "from_python (PDateTime ?dt) = ustr ''2020-01-02T03:04:05+00:00Z''"
    by (simp add: isoformat_def format_offset_def pad_def str_nat.simps clean_xml_string_def
        ustr_def is_valid_xml_char_ordinal_def)
  have r: "DATETIME_REGEX_search (ustr ''2020-01-02T03:04:05+00:00Z'') = None"
    by (simp add: DATETIME_REGEX_search_def take_digits_def take_char_def skip_fraction_def
        ustr_def is_decimal_below is_digit_def)
  have l: "sample_literal_eval (ustr ''2020-01-02T03:04:05+00:00Z'') = Inl SyntaxError"
    by (simp add: sample_literal_eval_def int_literal_def ustr_def is_digit_def)
  have t: "to_python sample_literal_eval (Single (PStr (ustr ''2020-01-02T03:04:05+00:00Z''))) =
      Inr (PStr (ustr ''2020-01-02T03:04:05+00:00Z''))"
  proof -
    have "ustr ''2020-01-02T03:04:05+00:00Z'' \<noteq> ustr ''true''"
      "ustr ''2020-01-02T03:04:05+00:00Z'' \<noteq> ustr ''false''"
      by (simp_all add: ustr_def)
    then show ?thesis by (simp add: to_python_def r l is_SyntaxError_def)
  qed
  from v f t show ?thesis by (simp only: simp_thms)
qed

subsection \<open>C4: the encoded form of dates and date-times\<close>

text \<open>
  C4.  For every timezone-naive date-time \<^verbatim>\<open>_from_python\<close> produces the text
  \<^verbatim>\<open>YYYY-MM-DDThh:mm:ssZ\<close> when the value has no microseconds, and
  \<^verbatim>\<open>YYYY-MM-DDThh:mm:ss.ffffffZ\<close> when it has; for every date it produces
  \<^verbatim>\<open>YYYY-MM-DDT00:00:00Z\<close>.  The shapes are stated with \<open>digit_shape\<close>, which writes
  \<^verbatim>\<open>d\<close> for every digit.
\<close>

theorem from_python_datetime_format:
  "(valid_datetime dt \<and> utcoffset dt = None \<longrightarrow>
      from_python (PDateTime dt) =
        pad 4 (year dt) @ ustr ''-'' @ pad 2 (month dt) @ ustr ''-'' @ pad 2 (day dt) @ ustr ''T''
        @ pad 2 (hour dt) @ ustr '':'' @ pad 2 (minute dt) @ ustr '':'' @ pad 2 (second dt)
        @ (if microsecond dt = 0 then [] else ustr ''.'' @ pad 6 (microsecond dt)) @ ustr ''Z''
      \<and> digit_shape (from_python (PDateTime dt)) =
        (if microsecond dt = 0 then ustr ''dddd-dd-ddTdd:dd:ddZ''
         else ustr ''dddd-dd-ddTdd:dd:dd.ddddddZ'')) \<and>
   (valid_date d \<longrightarrow>
      from_python (PDate d) =
        pad 4 (date_year d) @ ustr ''-'' @ pad 2 (date_month d) @ ustr ''-'' @ pad 2 (date_day d)
        @ ustr ''T00:00:00Z''
      \<and> digit_shape (from_python (PDate d)) = ustr ''dddd-dd-ddTdd:dd:ddZ'')"
proof (intro conjI impI)
  assume a: "valid_datetime dt \<and> utcoffset dt = None"
  then have b: "year dt < 10 ^ 4" "month dt < 10 ^ 2" "day dt < 10 ^ 2"
    "hour dt < 10 ^ 2" "minute dt < 10 ^ 2" "second dt < 10 ^ 2" "microsecond dt < 10 ^ 6"
    using valid_ymd_bounds[of "year dt" "month dt" "day dt"]
      valid_hms_bounds[of "hour dt" "minute dt" "second dt"]
    by (simp_all add: valid_datetime_def)
  from a have fp: "from_python (PDateTime dt) = iso_text dt"
    by (intro from_python_naive) simp_all
  show "from_python (PDateTime dt) =
        pad 4 (year dt) @ ustr ''-'' @ pad 2 (month dt) @ ustr ''-'' @ pad 2 (day dt) @ ustr ''T''
        @ pad 2 (hour dt) @ ustr '':'' @ pad 2 (minute dt) @ ustr '':'' @ pad 2 (second dt)
        @ (if microsecond dt = 0 then [] else ustr ''.'' @ pad 6 (microsecond dt)) @ ustr ''Z''"
    unfolding fp by (simp add: iso_text_def ustr_def)
  show "digit_shape (from_python (PDateTime dt)) =
        (if microsecond dt = 0 then ustr ''dddd-dd-ddTdd:dd:ddZ''
         else ustr ''dddd-dd-ddTdd:dd:dd.ddddddZ'')"
    unfolding fp iso_text_def
    by (simp add: digit_shape_pad[OF b(1)] digit_shape_pad[OF b(2)] digit_shape_pad[OF b(3)]
        digit_shape_pad[OF b(4)] digit_shape_pad[OF b(5)] digit_shape_pad[OF b(6)]
        digit_shape_pad[OF b(7)])
       (simp add: is_digit_def ustr_def replicate_246)
next
  assume a: "valid_date d"
  then have b: "date_year d < 10 ^ 4" "date_month d < 10 ^ 2" "date_day d < 10 ^ 2"
    using valid_ymd_bounds[of "date_year d" "date_month d" "date_day d"]
    by (simp_all add: valid_date_def)
  have fp: "from_python (PDate d) = date_isoformat d @ ustr ''T00:00:00Z''"
    by (simp add: clean_xml_string_id[OF date_text_valid_xml])
  show "from_python (PDate d) =
        pad 4 (date_year d) @ ustr ''-'' @ pad 2 (date_month d) @ ustr ''-'' @ pad 2 (date_day d)
        @ ustr ''T00:00:00Z''"
    unfolding fp by (simp add: date_isoformat_def)
  show "digit_shape (from_python (PDate d)) = ustr ''dddd-dd-ddTdd:dd:ddZ''"
    unfolding fp date_isoformat_def
    by (simp add: digit_shape_pad[OF b(1)] digit_shape_pad[OF b(2)] digit_shape_pad[OF b(3)]
        ustr_def)
       (simp add: is_digit_def ustr_def replicate_246)
qed

text \<open>The theorem at 2020-02-29 03:04:05 and at the date 0987-12-31.\<close>

theorem from_python_datetime_format_witness:
  "valid_datetime \<lparr>year = 2020, month = 2, day = 29, hour = 3, minute = 4, second = 5,
                   microsecond = 0, utcoffset = None\<rparr> \<and>
   valid_date \<lparr>date_year = 987, date_month = 12, date_day = 31\<rparr> \<and>
   from_python (PDateTime \<lparr>year = 2020, month = 2, day = 29, hour = 3, minute = 4, second = 5,
                            microsecond = 0, utcoffset = None\<rparr>) = ustr ''2020-02-29T03:04:05Z'' \<and>
   from_python (PDate \<lparr>date_year = 987, date_month = 12, date_day = 31\<rparr>) =
     ustr ''0987-12-31T00:00:00Z''"
proof -
  let ?dt = "\<lparr>year = 2020, month = 2, day = 29, hour = 3, minute = 4, second = 5,
                   microsecond = 0, utcoffset = None\<rparr>"
  let ?d = "\<lparr>date_year = 987, date_month = 12, date_day = 31\<rparr>"
  have v: "valid_datetime ?dt" "valid_date ?d"
    by (simp_all add: valid_datetime_def valid_date_def valid_ymd_def valid_hms_def
        days_in_month_def is_leap_def)
  have p: "pad 4 2020 = ustr ''2020''" "pad 2 2 = ustr ''02''" "pad 2 29 = ustr ''29''"
    "pad 2 3 = ustr ''03''" "pad 2 4 = ustr ''04''" "pad 2 5 = ustr ''05''"
    "pad 4 987 = ustr ''0987''" "pad 2 12 = ustr ''12''" "pad 2 31 = ustr ''31''"
    by (simp_all add: pad_def str_nat.simps ustr_def)
  from from_python_datetime_format[of ?dt ?d] v
  have "from_python (PDateTime ?dt) = ustr ''2020-02-29T03:04:05Z''"
    "from_python (PDate ?d) = ustr ''0987-12-31T00:00:00Z''"
    by (simp_all add: p del: from_python.simps) (simp_all add: ustr_def)
  with v show ?thesis by (simp only: simp_thms)
qed

text \<open>
  The claim that there are never fractional seconds fails where the value has
  microseconds: 2020-01-02 03:04:05.600000 is encoded with the fraction, 27 characters
  and not 20.
\<close>

theorem from_python_microsecond_counterexample:
  "valid_datetime \<lparr>year = 2020, month = 1, day = 2, hour = 3, minute = 4, second = 5,
                   microsecond = 600000, utcoffset = None\<rparr> \<and>
   from_python (PDateTime \<lparr>year = 2020, month = 1, day = 2, hour = 3, minute = 4, second = 5,
                            microsecond = 600000, utcoffset = None\<rparr>) =
     ustr ''2020-01-02T03:04:05.600000Z'' \<and>
   length (from_python (PDateTime \<lparr>year = 2020, month = 1, day = 2, hour = 3, minute = 4,
                            second = 5, microsecond = 600000, utcoffset = None\<rparr>)) = 27"
proof -
  let ?dt = "\<lparr>year = 2020, month = 1, day = 2, hour = 3, minute = 4, second = 5,
                   microsecond = 600000, utcoffset = None\<rparr>"
  have v: "valid_datetime ?dt"
    by (simp add: valid_datetime_def valid_ymd_def valid_hms_def days_in_month_def is_leap_def)
  have f: "from_python (PDateTime ?dt) = ustr ''2020-01-02T03:04:05.600000Z''"
    by (simp add: isoformat_def pad_def str_nat.simps clean_xml_string_def
        ustr_def is_valid_xml_char_ordinal_def)
  have "length (ustr ''2020-01-02T03:04:05.600000Z'') = 27" by (simp add: ustr_def)
  with v f show ?thesis by (simp only: simp_thms)
qed


subsection \<open>C5: the sanitizer is idempotent\<close>

text \<open>
  C5.  For every text \<open>s\<close>, \<open>sanitize (sanitize s) = sanitize s\<close>; and sanitizing a
  text that holds none of the removed control characters (0x00-0x08, 0x0B-0x0C,
  0x0E-0x1F) and no lone surrogate code point returns it unchanged.  The second half
  needs the exclusion of surrogates: \<^verbatim>\<open>force_bytes\<close> encodes with \<^verbatim>\<open>backslashreplace\<close>,
  so a surrogate comes back as the six characters of its escape.
\<close>

theorem sanitize_idempotent:
  assumes "valid_str s"
  shows "sanitize (sanitize s) = sanitize s \<and>
         (list_all (\<lambda>c. \<not> removed_ctrl c \<and> \<not> is_surrogate c) s \<longrightarrow> sanitize s = s)"
proof (intro conjI impI)
  have "sanitize (sanitize s) =
        filter (\<lambda>n. \<not> removed_ctrl n) (concat (map escape_cp (sanitize s)))"
    by (rule sanitize_eq) (rule sanitize_props(1)[OF assms])
  also have "\<dots> = filter (\<lambda>n. \<not> removed_ctrl n) (sanitize s)"
    by (simp only: escape_id[OF sanitize_props(2)[OF assms]])
  also have "\<dots> = sanitize s"
    using sanitize_props(3)[OF assms] by (simp add: filter_id_conv list_all_iff)
  finally show "sanitize (sanitize s) = sanitize s" .
next
  assume clean: "list_all (\<lambda>c. \<not> removed_ctrl c \<and> \<not> is_surrogate c) s"
  then have "concat (map escape_cp s) = s"
    by (intro escape_id) (simp add: list_all_iff)
  with clean show "sanitize s = s"
    by (simp add: sanitize_eq[OF assms] filter_id_conv list_all_iff)
qed

text \<open>The theorem at the text \<^verbatim>\<open>a\<close>, the euro sign, a newline.\<close>

theorem sanitize_idempotent_witness:
  "valid_str [97, 0x20AC, 10] \<and>
   list_all (\<lambda>c. \<not> removed_ctrl c \<and> \<not> is_surrogate c) [97, 0x20AC, 10] \<and>
   sanitize (sanitize [97, 0x20AC, 10]) = sanitize [97, 0x20AC, 10] \<and>
   sanitize [97, 0x20AC, 10] = [97, 0x20AC, 10]"
proof -
  have v: "valid_str [97, 0x20AC, 10]" by (simp add: valid_str_def)
  have c: "list_all (\<lambda>c. \<not> removed_ctrl c \<and> \<not> is_surrogate c) [97, 0x20AC, 10]"
    by (simp add: removed_ctrl_def is_surrogate_def)
  from sanitize_idempotent[OF v] v c show ?thesis by simp
qed

text \<open>
  Without the exclusion the second half fails: \<^verbatim>\<open>sanitize('\ud800')\<close> is the six
  characters \<^verbatim>\<open>\ud800\<close>, although the text holds no control character.
\<close>

theorem sanitize_surrogate_counterexample:
  "valid_str [0xD800] \<and> list_all (\<lambda>c. \<not> removed_ctrl c) [0xD800] \<and>
   sanitize [0xD800] = 92 # ustr ''ud800'' \<and> sanitize [0xD800] \<noteq> [0xD800]"
proof -
  have v: "valid_str [0xD800]" by (simp add: valid_str_def)
  have "sanitize [0xD800] = 92 # ustr ''ud800''"
    by (simp add: sanitize_eq[OF v] escape_cp_def is_surrogate_def backslashreplace_def
        hex_digit_def removed_ctrl_def ustr_def)
  with v show ?thesis by (simp add: removed_ctrl_def ustr_def)
qed

subsection \<open>C6: delete validates its arguments\<close>

text \<open>
  C6.  When the identifier and the query of \<^verbatim>\<open>delete\<close> are both absent, or both present,
  the call fails with a \<^verbatim>\<open>ValueError\<close>, which is not the unified \<^verbatim>\<open>SolrError\<close>, and no
  request is handed to the HTTP client: the list of requests is unchanged.  The check is
  the first statement of the coroutine and runs before any suspension point.
\<close>

theorem delete_validation:
  assumes "(doc_id = None \<and> q = None) \<or> (doc_id \<noteq> None \<and> q \<noteq> None)"
  shows "\<exists>msg. delete self doc_id q commit waitFlush waitSearcher net = (Inl (ValueError msg), net)
           \<and> (\<forall>m. ValueError msg \<noteq> SolrError m)"
  using assms by (auto simp: delete_def split: option.splits)

text \<open>The theorem with neither argument, and with both.\<close>

theorem delete_validation_witness:
  "(\<exists>msg. delete offline None None (Some True) None None [] = (Inl (ValueError msg), [])) \<and>
   (\<exists>msg. delete offline (Some (ustr ''doc_12'')) (Some (ustr ''*:*'')) (Some True) None None []
           = (Inl (ValueError msg), []))"
proof -
  have 1: "((None :: str option) = None \<and> (None :: str option) = None)
         \<or> ((None :: str option) \<noteq> None \<and> (None :: str option) \<noteq> None)"
    by simp
  have 2: "(Some (ustr ''doc_12'') = None \<and> Some (ustr ''*:*'') = None)
         \<or> (Some (ustr ''doc_12'') \<noteq> None \<and> Some (ustr ''*:*'') \<noteq> None)"
    by simp
  from delete_validation[OF 1, of offline "Some True" None None "[]"]
    delete_validation[OF 2, of offline "Some True" None None "[]"]
  show ?thesis by blast
qed

text \<open>With the identifier alone the same client is handed one request.\<close>

lemma delete_issues_request:
  "snd (delete offline (Some (ustr ''doc_12'')) None (Some True) None None []) =
     [\<lparr>req_url = ustr ''http://localhost:8983/solr/update/?commit=true'',
       req_method = ustr ''POST'',
       req_headers = [(ustr ''Content-type'', ustr ''text/xml; charset=utf-8'')],
       req_body = Some (bstr ''<delete><id>doc_12</id></delete>''),
       request_timeout = 60\<rparr>]"
proof -
  let ?m = "ustr ''<delete><id>doc_12</id></delete>''"
  have v: "valid_str ?m"
    by (simp add: valid_str_def ustr_def)
  have s: "sanitize ?m = ?m"
    by (subst sanitize_eq[OF v]) (simp add: escape_cp_def is_surrogate_def removed_ctrl_def ustr_def)
  have a: "list_all (\<lambda>c. c < 128) ?m"
    by (simp add: ustr_def)
  have b: "force_bytes ?m = bstr ''<delete><id>doc_12</id></delete>''"
    by (simp add: force_bytes_ascii[OF a]) (simp add: ustr_def bstr_def)
  have u: "create_full_url offline (ustr ''update/?commit=true'') =
      ustr ''http://localhost:8983/solr/update/?commit=true''"
    by (simp add: create_full_url_def offline_def rstrip_char_def lstrip_char_def ustr_def)
  have p: "ustr ''update/'' @ ustr ''?'' @ ustr ''commit='' @ bool_text True =
      ustr ''update/?commit=true''"
    by (simp add: bool_text_def ustr_def)
  have d: "delete offline (Some (ustr ''doc_12'')) None (Some True) None None [] =
     update offline ?m True (Some True) (Some False) None None []"
    by (simp add: delete_def ustr_def)
  have t: "solr_timeout offline = 60" by (simp add: offline_def)
  show ?thesis
    unfolding d update_def Let_def snd_send_request
    by (simp add: p s b u t upper_get_post)
qed

subsection \<open>C7: a field with a sequence of values\<close>

text \<open>
  C7.  For every document field other than the one named \<^verbatim>\<open>boost\<close> that is mapped to a
  sequence of N values, \<^verbatim>\<open>_build_doc\<close> emits one field element per value, in the given
  order, except that a value which is \<^verbatim>\<open>None\<close> or the empty string is left out; the
  number of elements for the field is N minus the number of such values.  The document
  is a dictionary, so its keys are distinct.
\<close>

theorem build_doc_multi_value:
  assumes "distinct (map fst doc)" "(key, Multi vs) \<in> set doc" "key \<noteq> ustr ''boost''"
  shows "fields_named key (build_doc doc boost fieldUpdates) =
           map (\<lambda>b. Element (ustr ''field'') (field_attrs key boost fieldUpdates)
                      (Some (from_python b)) [])
             (filter (\<lambda>b. b \<noteq> PNone \<and> b \<noteq> PStr []) vs) \<and>
         length (fields_named key (build_doc doc boost fieldUpdates)) =
           length vs - length (filter (\<lambda>b. b = PNone \<or> b = PStr []) vs)"
proof -
  have f: "fields_named key (build_doc doc boost fieldUpdates) =
      build_fields key boost fieldUpdates vs"
    using fields_named_field[OF assms] by simp
  have n: "(\<lambda>b. \<not> is_null_value b) = (\<lambda>b. b \<noteq> PNone \<and> b \<noteq> PStr [])"
    by (simp add: is_null_value_iff fun_eq_iff)
  have "length (filter (\<lambda>b. \<not> (b = PNone \<or> b = PStr [])) vs) =
      length vs - length (filter (\<lambda>b. b = PNone \<or> b = PStr []) vs)"
    by (rule length_filter_not)
  then show ?thesis
    unfolding f build_fields_eq n by simp
qed

text \<open>
  The theorem at a document with an \<^verbatim>\<open>id\<close> and a field \<^verbatim>\<open>tags\<close> of four values, two of
  them null.
\<close>

theorem build_doc_multi_value_witness:
  "distinct (map fst [(ustr ''id'', Single (PStr (ustr ''a''))),
                      (ustr ''tags'', Multi [PStr (ustr ''x''), PNone, PStr [], PInt 0])]) \<and>
   fields_named (ustr ''tags'')
     (build_doc [(ustr ''id'', Single (PStr (ustr ''a''))),
                 (ustr ''tags'', Multi [PStr (ustr ''x''), PNone, PStr [], PInt 0])] None None) =
     [Element (ustr ''field'') [(ustr ''name'', AText (ustr ''tags''))] (Some (ustr ''x'')) [],
      Element (ustr ''field'') [(ustr ''name'', AText (ustr ''tags''))] (Some (ustr ''0'')) []] \<and>
   length (fields_named (ustr ''tags'')
     (build_doc [(ustr ''id'', Single (PStr (ustr ''a''))),
                 (ustr ''tags'', Multi [PStr (ustr ''x''), PNone, PStr [], PInt 0])] None None)) = 2"
proof -
  let ?doc = "[(ustr ''id'', Single (PStr (ustr ''a''))),
               (ustr ''tags'', Multi [PStr (ustr ''x''), PNone, PStr [], PInt 0])]"
  have d: "distinct (map fst ?doc)" by (simp add: ustr_def)
  have m: "(ustr ''tags'', Multi [PStr (ustr ''x''), PNone, PStr [], PInt 0]) \<in> set ?doc"
    by simp
  have k: "ustr ''tags'' \<noteq> ustr ''boost''" by (simp add: ustr_def)
  have x: "ustr ''x'' \<noteq> []" by (simp add: ustr_def)
  have fp: "from_python (PStr (ustr ''x'')) = ustr ''x''" "from_python (PInt 0) = ustr ''0''"
    by (simp_all add: clean_xml_string_def ustr_def is_valid_xml_char_ordinal_def str_int_def
        str_nat.simps)
  from build_doc_multi_value[OF d m k, of None None] d show ?thesis
    by (simp add: x fp field_attrs_def del: from_python.simps)
qed

text \<open>
  The key \<^verbatim>\<open>boost\<close> is not a field: the document \<^verbatim>\<open>{'boost': [1, 2]}\<close> gets the
  attribute and no field element, though its sequence has two values and neither is
  null.
\<close>

theorem build_doc_boost_sequence_counterexample:
  "distinct (map fst [(ustr ''boost'', Multi [PInt 1, PInt 2])]) \<and>
   build_doc [(ustr ''boost'', Multi [PInt 1, PInt 2])] None None =
     Element (ustr ''doc'') [(ustr ''boost'', AStrOf [PInt 1, PInt 2])] None [] \<and>
   fields_named (ustr ''boost'') (build_doc [(ustr ''boost'', Multi [PInt 1, PInt 2])] None None) = []"
  by (simp add: build_doc_def fields_named_def)

subsection \<open>C8: the two shapes of a term suggestion\<close>

text \<open>
  C8.  \<^verbatim>\<open>suggest_terms\<close> normalizes both wire shapes to the same result.  For every list of
  fields with distinct names, each with the list Solr sends for it, the flat shape
  \<^verbatim>\<open>{"terms": [name, list, name, list, ...]}\<close> and the mapping shape
  \<^verbatim>\<open>{"terms": {name: list, ...}}\<close> are decoded to the same value, and \<^verbatim>\<open>suggest_terms\<close>
  returns it whichever of the two the decoder hands over.  When every list alternates
  terms and counts (its length is even), that value maps each field name, in the given
  order, to the pairs (term, count) of its list.  The hypotheses say that the parameters
  were urlencoded, that the client answered the GET request, and that the decoder
  returned one of the two shapes.  The spec's example, the field \<^verbatim>\<open>color\<close> with
  \<^verbatim>\<open>["red", 5, "blue", 3]\<close>, is the witness.
\<close>

theorem suggest_terms_normalizes:
  assumes "urlencode (dict_set (dict_update [(ustr ''terms.fl'', field_names),
                                             (ustr ''terms.prefix'', term_prefix)] kwargs)
                        (ustr ''wt'') (Single (PStr (ustr ''json'')))) = Inr q"
    and "solr_fetch self \<lparr>req_url = create_full_url self (ustr ''terms/?'' @ q),
                           req_method = ustr ''GET'', req_headers = [], req_body = None,
                           request_timeout = solr_timeout self\<rparr> = Inr resp"
    and "solr_decoder self (force_unicode (PBytes (resp_body resp))) = Inr result"
    and "distinct (map fst kvs)"
    and "result = flat_terms kvs \<or> result = mapping_terms kvs"
  shows "terms_of_result (flat_terms kvs) = terms_of_result (mapping_terms kvs) \<and>
         fst (suggest_terms self urlencode field_names term_prefix kwargs net) =
           terms_of_result (mapping_terms kvs) \<and>
         (list_all (\<lambda>(k, xs). even (length xs)) kvs \<longrightarrow>
            fst (suggest_terms self urlencode field_names term_prefix kwargs net) =
              Inr (map (\<lambda>(k, xs). (JStr k, paired xs)) kvs))"
proof -
  have s: "terms_of_result (flat_terms kvs) = terms_of_result (mapping_terms kvs)"
    by (rule terms_of_result_shapes[OF assms(4)])
  then have r: "terms_of_result result = terms_of_result (mapping_terms kvs)"
    using assms(5) by auto
  have "suggest_terms_request self urlencode
          (dict_update [(ustr ''terms.fl'', field_names), (ustr ''terms.prefix'', term_prefix)] kwargs) net =
        (Inr (force_unicode (PBytes (resp_body resp))),
         net @ [\<lparr>req_url = create_full_url self (ustr ''terms/?'' @ q),
                           req_method = ustr ''GET'', req_headers = [], req_body = None,
                           request_timeout = solr_timeout self\<rparr>])"
    using assms(1,2)
    by (simp add: suggest_terms_request_def send_request_def upper_get_post Let_def
        del: force_unicode.simps)
  then have f: "fst (suggest_terms self urlencode field_names term_prefix kwargs net) =
      terms_of_result (mapping_terms kvs)"
    using assms(3) r
    by (simp add: suggest_terms_def Let_def del: force_unicode.simps)
  from s f terms_of_result_mapping_terms[OF assms(4)] show ?thesis by simp
qed

text \<open>
  The theorem at \<^verbatim>\<open>{"terms": ["color", ["red", 5, "blue", 3]]}\<close> and at
  \<^verbatim>\<open>{"terms": {"color": ["red", 5, "blue", 3]}}\<close>, with a client that answers every request:
  both give \<^verbatim>\<open>{"color": [("red", 5), ("blue", 3)]}\<close>.
\<close>

theorem suggest_terms_normalizes_witness:
  "fst (suggest_terms
         (canned (JDict [(ustr ''terms'',
            JList [JStr (ustr ''color''),
                   JList [JStr (ustr ''red''), JInt 5, JStr (ustr ''blue''), JInt 3]])]))
         (\<lambda>p. Inr (ustr ''terms.fl=color&terms.prefix=r&wt=json''))
         (Multi [PStr (ustr ''color'')]) (Single (PStr (ustr ''r''))) [] []) =
     Inr [(JStr (ustr ''color''),
           [(JStr (ustr ''red''), JInt 5), (JStr (ustr ''blue''), JInt 3)])] \<and>
   fst (suggest_terms
         (canned (JDict [(ustr ''terms'',
            JDict [(ustr ''color'',
                   JList [JStr (ustr ''red''), JInt 5, JStr (ustr ''blue''), JInt 3])])]))
         (\<lambda>p. Inr (ustr ''terms.fl=color&terms.prefix=r&wt=json''))
         (Multi [PStr (ustr ''color'')]) (Single (PStr (ustr ''r''))) [] []) =
     Inr [(JStr (ustr ''color''),
           [(JStr (ustr ''red''), JInt 5), (JStr (ustr ''blue''), JInt 3)])]"
proof -
  let ?vals = "[JStr (ustr ''red''), JInt 5, JStr (ustr ''blue''), JInt 3]"
  let ?kvs = "[(ustr ''color'', ?vals)]"
  let ?enc = "\<lambda>p :: (str \<times> field_value) list. (Inr (ustr ''terms.fl=color&terms.prefix=r&wt=json'') :: exn + str)"
  let ?resp = "\<lparr>resp_code = 200, resp_reason = ustr ''OK'', resp_headers = [], resp_body = []\<rparr>"
  have f: "\<And>j r. solr_fetch (canned j) r = Inr ?resp" by (simp add: canned_def)
  have d: "\<And>j t. solr_decoder (canned j) t = Inr j" by (simp add: canned_def)
  have k: "distinct (map fst ?kvs)" by simp
  have e: "list_all (\<lambda>(k, xs). even (length xs)) ?kvs" by simp
  have p: "map (\<lambda>(k, xs). (JStr k, paired xs)) ?kvs =
      [(JStr (ustr ''color''), [(JStr (ustr ''red''), JInt 5), (JStr (ustr ''blue''), JInt 3)])]"
    by (simp add: paired_Cons2 paired_Nil)
  have fl: "flat_terms ?kvs = JDict [(ustr ''terms'', JList [JStr (ustr ''color''), JList ?vals])]"
    by (simp add: flat_terms_def)
  have ma: "mapping_terms ?kvs = JDict [(ustr ''terms'', JDict [(ustr ''color'', JList ?vals)])]"
    by (simp add: mapping_terms_def)
  have 1: "fst (suggest_terms (canned (flat_terms ?kvs)) ?enc (Multi [PStr (ustr ''color'')])
                 (Single (PStr (ustr ''r''))) [] []) =
           Inr (map (\<lambda>(k, xs). (JStr k, paired xs)) ?kvs)"
    using suggest_terms_normalizes[where kvs = ?kvs and resp = ?resp
        and result = "flat_terms ?kvs" and net = "[]" and urlencode = ?enc
        and q = "ustr ''terms.fl=color&terms.prefix=r&wt=json''"
        and field_names = "Multi [PStr (ustr ''color'')]"
        and term_prefix = "Single (PStr (ustr ''r''))" and kwargs = "[]", OF refl f d k] e
    by blast
  have 2: "fst (suggest_terms (canned (mapping_terms ?kvs)) ?enc (Multi [PStr (ustr ''color'')])
                 (Single (PStr (ustr ''r''))) [] []) =
           Inr (map (\<lambda>(k, xs). (JStr k, paired xs)) ?kvs)"
    using suggest_terms_normalizes[where kvs = ?kvs and resp = ?resp
        and result = "mapping_terms ?kvs" and net = "[]" and urlencode = ?enc
        and q = "ustr ''terms.fl=color&terms.prefix=r&wt=json''"
        and field_names = "Multi [PStr (ustr ''color'')]"
        and term_prefix = "Single (PStr (ustr ''r''))" and kwargs = "[]", OF refl f d k] e
    by blast
  from 1 2 show ?thesis unfolding p fl ma by (simp only: simp_thms)
qed

subsection \<open>C9: long queries are posted\<close>

text \<open>
  C9.  \<^verbatim>\<open>_select\<close> sets \<^verbatim>\<open>wt=json\<close> and urlencodes the parameters.  When the encoded
  form is 1024 bytes or longer, the request handed to the client is a POST to the select
  path with the encoded form as its body and the form content type; when it is shorter,
  it is a GET with the encoded form in the URL.  The encoded form is ASCII, as urlencoding
  yields, so its length in characters, which the code compares, is its length in bytes.
\<close>

theorem select_routing:
  assumes "urlencode (dict_set params (ustr ''wt'') (Single (PStr (ustr ''json'')))) =
             Inr params_encoded"
    and "list_all (\<lambda>c. c < 128) params_encoded"
  shows "snd (select self urlencode params net) =
           net @ [if 1024 \<le> length (force_bytes params_encoded)
                  then \<lparr>req_url = create_full_url self (ustr ''select/''),
                        req_method = ustr ''POST'',
                        req_headers = [(ustr ''Content-type'',
                                        ustr ''application/x-www-form-urlencoded; charset=utf-8'')],
                        req_body = Some (force_bytes params_encoded),
                        request_timeout = solr_timeout self\<rparr>
                  else \<lparr>req_url = create_full_url self (ustr ''select/?'' @ params_encoded),
                        req_method = ustr ''GET'',
                        req_headers = [],
                        req_body = None,
                        request_timeout = solr_timeout self\<rparr>]"
  using assms(1) length_force_bytes_ascii[OF assms(2)]
  by (simp add: select_def snd_send_request upper_get_post form_headers_def)

text \<open>The theorem at an encoded form of 11 characters and at one of 1024.\<close>

theorem select_routing_witness:
  "snd (select offline (\<lambda>p. Inr (ustr ''q=a&wt=json'')) [(ustr ''q'', Single (PStr (ustr ''a'')))] []) =
     [\<lparr>req_url = ustr ''http://localhost:8983/solr/select/?q=a&wt=json'',
       req_method = ustr ''GET'', req_headers = [], req_body = None, request_timeout = 60\<rparr>] \<and>
   snd (select offline (\<lambda>p. Inr (replicate 1024 97)) [(ustr ''q'', Single (PStr (ustr ''a'')))] []) =
     [\<lparr>req_url = ustr ''http://localhost:8983/solr/select/'',
       req_method = ustr ''POST'',
       req_headers = [(ustr ''Content-type'',
                       ustr ''application/x-www-form-urlencoded; charset=utf-8'')],
       req_body = Some (replicate 1024 97), request_timeout = 60\<rparr>]"
proof -
  let ?ps = "[(ustr ''q'', Single (PStr (ustr ''a'')))]"
  have a1: "list_all (\<lambda>c. c < 128) (ustr ''q=a&wt=json'')" by (simp add: ustr_def)
  have a2: "list_all (\<lambda>c. c < 128) (replicate 1024 (97::nat))" by (simp add: list_all_iff)
  have l1: "length (force_bytes (ustr ''q=a&wt=json'')) = 11"
    by (simp add: length_force_bytes_ascii[OF a1]) (simp add: ustr_def)
  have l2: "length (force_bytes (replicate 1024 97)) = 1024"
    by (simp add: length_force_bytes_ascii[OF a2])
  have b2: "force_bytes (replicate 1024 97) = replicate 1024 97"
    by (simp add: force_bytes_ascii[OF a2])
  have u1: "create_full_url offline (ustr ''select/?'' @ ustr ''q=a&wt=json'') =
      ustr ''http://localhost:8983/solr/select/?q=a&wt=json''"
    by (simp add: create_full_url_def offline_def rstrip_char_def lstrip_char_def ustr_def)
  have u2: "create_full_url offline (ustr ''select/'') = ustr ''http://localhost:8983/solr/select/''"
    by (simp add: create_full_url_def offline_def rstrip_char_def lstrip_char_def ustr_def)
  have t: "solr_timeout offline = 60" by (simp add: offline_def)
  have 1: "snd (select offline (\<lambda>p. Inr (ustr ''q=a&wt=json'')) ?ps []) =
     [\<lparr>req_url = ustr ''http://localhost:8983/solr/select/?q=a&wt=json'',
       req_method = ustr ''GET'', req_headers = [], req_body = None, request_timeout = 60\<rparr>]"
    using select_routing[of "\<lambda>p. Inr (ustr ''q=a&wt=json'')" ?ps "ustr ''q=a&wt=json''" offline "[]", OF refl a1]
    by (simp only: l1 u1 t) simp
  have 2: "snd (select offline (\<lambda>p. Inr (replicate 1024 97)) ?ps []) =
     [\<lparr>req_url = ustr ''http://localhost:8983/solr/select/'',
       req_method = ustr ''POST'',
       req_headers = [(ustr ''Content-type'',
                       ustr ''application/x-www-form-urlencoded; charset=utf-8'')],
       req_body = Some (replicate 1024 97), request_timeout = 60\<rparr>]"
    using select_routing[of "\<lambda>p. Inr (replicate 1024 97)" ?ps "replicate 1024 97" offline "[]", OF refl a2]
    by (simp only: l2 b2 u2 t) simp
  from 1 2 show ?thesis by (simp only: simp_thms)
qed

subsection \<open>C10: only None and the empty string are null\<close>

text \<open>
  C10.  For every document field other than the one named \<^verbatim>\<open>boost\<close>, every value of it
  (the value itself, or an element of its sequence) that is neither \<^verbatim>\<open>None\<close> nor the
  empty string gets a field element with the encoded text: \<^verbatim>\<open>false\<close> for \<^verbatim>\<open>False\<close>,
  \<^verbatim>\<open>0\<close> for the number 0, and the empty text for a string of characters that the XML
  filter drops.
\<close>

theorem build_doc_non_null_value:
  assumes "distinct (map fst doc)" "(key, val) \<in> set doc" "key \<noteq> ustr ''boost''"
    and "v \<in> set (values_of val)" "v \<noteq> PNone" "v \<noteq> PStr []"
  shows "Element (ustr ''field'') (field_attrs key boost fieldUpdates) (Some (from_python v)) []
           \<in> set (fields_named key (build_doc doc boost fieldUpdates)) \<and>
         from_python (PBool False) = ustr ''false'' \<and> from_python (PInt 0) = ustr ''0'' \<and>
         from_python (PStr [1]) = []"
proof -
  have "\<not> is_null_value v" using assms(5,6) by (simp add: is_null_value_iff)
  with assms(4) have "Element (ustr ''field'') (field_attrs key boost fieldUpdates)
      (Some (from_python v)) [] \<in> set (build_fields key boost fieldUpdates (values_of val))"
    unfolding build_fields_eq by (simp del: from_python.simps)
  moreover have "from_python (PBool False) = ustr ''false''" "from_python (PInt 0) = ustr ''0''"
    "from_python (PStr [1]) = []"
    by (simp_all add: clean_xml_string_def ustr_def is_valid_xml_char_ordinal_def str_int_def
        str_nat.simps)
  ultimately show ?thesis
    unfolding fields_named_field[OF assms(1-3)] by (simp only: simp_thms)
qed

text \<open>
  The theorem at a document with the field \<^verbatim>\<open>flag\<close> of value \<^verbatim>\<open>False\<close> and the field
  \<^verbatim>\<open>c\<close> whose value is the one character U+0001.
\<close>

theorem build_doc_non_null_value_witness:
  "distinct (map fst [(ustr ''flag'', Single (PBool False)), (ustr ''c'', Single (PStr [1]))]) \<and>
   Element (ustr ''field'') [(ustr ''name'', AText (ustr ''flag''))] (Some (ustr ''false'')) []
     \<in> set (fields_named (ustr ''flag'')
         (build_doc [(ustr ''flag'', Single (PBool False)), (ustr ''c'', Single (PStr [1]))] None None)) \<and>
   Element (ustr ''field'') [(ustr ''name'', AText (ustr ''c''))] (Some []) []
     \<in> set (fields_named (ustr ''c'')
         (build_doc [(ustr ''flag'', Single (PBool False)), (ustr ''c'', Single (PStr [1]))] None None))"
proof -
  let ?doc = "[(ustr ''flag'', Single (PBool False)), (ustr ''c'', Single (PStr [1]))]"
  have d: "distinct (map fst ?doc)" by (simp add: ustr_def)
  have k: "ustr ''flag'' \<noteq> ustr ''boost''" "ustr ''c'' \<noteq> ustr ''boost''"
    by (simp_all add: ustr_def)
  have a: "field_attrs (ustr ''flag'') None None = [(ustr ''name'', AText (ustr ''flag''))]"
    "field_attrs (ustr ''c'') None None = [(ustr ''name'', AText (ustr ''c''))]"
    by (simp_all add: field_attrs_def)
  have m: "(ustr ''flag'', Single (PBool False)) \<in> set ?doc"
    "(ustr ''c'', Single (PStr [1])) \<in> set ?doc"
    by simp_all
  have "Element (ustr ''field'') (field_attrs (ustr ''flag'') None None)
        (Some (from_python (PBool False))) []
        \<in> set (fields_named (ustr ''flag'') (build_doc ?doc None None)) \<and>
      from_python (PBool False) = ustr ''false'' \<and> from_python (PInt 0) = ustr ''0'' \<and>
      from_python (PStr [1]) = []"
    by (rule build_doc_non_null_value[OF d m(1) k(1)]) simp_all
  then have 1: "Element (ustr ''field'') [(ustr ''name'', AText (ustr ''flag''))]
      (Some (ustr ''false'')) [] \<in> set (fields_named (ustr ''flag'') (build_doc ?doc None None))"
    unfolding a by metis
  have "Element (ustr ''field'') (field_attrs (ustr ''c'') None None)
        (Some (from_python (PStr [1]))) []
        \<in> set (fields_named (ustr ''c'') (build_doc ?doc None None)) \<and>
      from_python (PBool False) = ustr ''false'' \<and> from_python (PInt 0) = ustr ''0'' \<and>
      from_python (PStr [1]) = []"
    by (rule build_doc_non_null_value[OF d m(2) k(2)]) simp_all
  then have 2: "Element (ustr ''field'') [(ustr ''name'', AText (ustr ''c''))] (Some []) []
      \<in> set (fields_named (ustr ''c'') (build_doc ?doc None None))"
    unfolding a by metis
  from d 1 2 show ?thesis by (simp only: simp_thms)
qed

text \<open>
  Under the key \<^verbatim>\<open>boost\<close> the value \<^verbatim>\<open>False\<close> gets no field element: it becomes the
  attribute \<^verbatim>\<open>boost="False"\<close> of the document element.
\<close>

theorem build_doc_boost_value_counterexample:
  "distinct (map fst [(ustr ''boost'', Single (PBool False))]) \<and>
   PBool False \<noteq> PNone \<and> PBool False \<noteq> PStr [] \<and>
   build_doc [(ustr ''boost'', Single (PBool False))] None None =
     Element (ustr ''doc'') [(ustr ''boost'', AText (ustr ''False''))] None [] \<and>
   children (build_doc [(ustr ''boost'', Single (PBool False))] None None) = []"
  by (simp add: build_doc_def)

end
